theory Spec2Isabelle
  imports Complex_Main
begin

section \<open>Python values as the pipeline sees them\<close>

text \<open>
  \<^verbatim>\<open>earthquakeApp.py\<close> handles the value that \<^verbatim>\<open>response.json()\<close> hands back: a tree of
  \<^verbatim>\<open>None\<close>, \<^verbatim>\<open>bool\<close>, \<^verbatim>\<open>int\<close>, \<^verbatim>\<open>float\<close>, \<^verbatim>\<open>str\<close>, \<^verbatim>\<open>list\<close> and \<^verbatim>\<open>dict\<close> (string keys). A
  \<^verbatim>\<open>dict\<close> is an association list read with \<^const>\<open>map_of\<close>. A \<^verbatim>\<open>float\<close> is carried as a
  real: the two functions modelled here pass numbers through and only ever test them for
  zero, so rounding, infinities and NaN play no part.
\<close>

datatype json =
    JNull
  | JBool bool
  | JInt int
  | JFloat real
  | JStr string
  | JArr "json list"
  | JObj "(string \<times> json) list"

text \<open>The exception classes that can appear, each with the text \<^verbatim>\<open>str(e)\<close> gives.\<close>

datatype exn_class =
    Timeout
  | HTTPError
  | JSONDecodeError
  | ConnectionError
  | ValueError
  | TypeError
  | AttributeError
  | IndexError
  | KeyError
  | OtherException

datatype exn = Exn exn_class string

fun exn_cls :: "exn \<Rightarrow> exn_class" where
  "exn_cls (Exn c m) = c"

fun exn_str :: "exn \<Rightarrow> string" where
  "exn_str (Exn c m) = m"

text \<open>Sequencing of two steps, the second skipped when the first raises.\<close>

definition and_then :: "exn + 'a \<Rightarrow> ('a \<Rightarrow> exn + 'b) \<Rightarrow> exn + 'b" where
  "and_then r f = (case r of Inl e \<Rightarrow> Inl e | Inr v \<Rightarrow> f v)"

fun type_name :: "json \<Rightarrow> string" where
  "type_name JNull = ''NoneType''"
| "type_name (JBool b) = ''bool''"
| "type_name (JInt n) = ''int''"
| "type_name (JFloat r) = ''float''"
| "type_name (JStr s) = ''str''"
| "type_name (JArr xs) = ''list''"
| "type_name (JObj kvs) = ''dict''"

text \<open>Truth value of an object, as \<^verbatim>\<open>not data\<close> tests it.\<close>

fun truthy :: "json \<Rightarrow> bool" where
  "truthy JNull = False"
| "truthy (JBool b) = b"
| "truthy (JInt n) = (n \<noteq> 0)"
| "truthy (JFloat r) = (r \<noteq> 0)"
| "truthy (JStr s) = (s \<noteq> [])"
| "truthy (JArr xs) = (xs \<noteq> [])"
| "truthy (JObj kvs) = (kvs \<noteq> [])"

text \<open>\<^verbatim>\<open>needle in hay\<close> on two strings: a contiguous occurrence.\<close>

fun str_contains :: "string \<Rightarrow> string \<Rightarrow> bool" where
  "str_contains needle [] = (needle = [])"
| "str_contains needle (c # cs) =
     (take (length needle) (c # cs) = needle \<or> str_contains needle cs)"

text \<open>
  \<^verbatim>\<open>key in x\<close> for a string \<^verbatim>\<open>key\<close>: key membership on a \<^verbatim>\<open>dict\<close>, element membership on a
  \<^verbatim>\<open>list\<close>, substring on a \<^verbatim>\<open>str\<close>, and \<^verbatim>\<open>TypeError\<close> on everything else.
\<close>

fun py_in :: "string \<Rightarrow> json \<Rightarrow> exn + bool" where
  "py_in key (JObj kvs) = Inr (key \<in> set (map fst kvs))"
| "py_in key (JArr xs) = Inr (JStr key \<in> set xs)"
| "py_in key (JStr s) = Inr (str_contains key s)"
| "py_in key v =
     Inl (Exn TypeError (''argument of type '' @ [CHR 0x27] @ type_name v @ [CHR 0x27]
                          @ '' is not iterable''))"

text \<open>\<^verbatim>\<open>x[key]\<close> for a string \<^verbatim>\<open>key\<close>.\<close>

fun py_getitem_key :: "json \<Rightarrow> string \<Rightarrow> exn + json" where
  "py_getitem_key (JObj kvs) key =
     (case map_of kvs key of
        None \<Rightarrow> Inl (Exn KeyError ([CHR 0x27] @ key @ [CHR 0x27]))
      | Some v \<Rightarrow> Inr v)"
| "py_getitem_key (JArr xs) key =
     Inl (Exn TypeError ''list indices must be integers or slices, not str'')"
| "py_getitem_key (JStr s) key =
     Inl (Exn TypeError (''string indices must be integers, not '' @ [CHR 0x27] @ ''str'' @ [CHR 0x27]))"
| "py_getitem_key v key =
     Inl (Exn TypeError ([CHR 0x27] @ type_name v @ [CHR 0x27] @ '' object is not subscriptable''))"

text \<open>\<^verbatim>\<open>len(x)\<close>; a \<^verbatim>\<open>dict\<close> counts its distinct keys.\<close>

fun py_len :: "json \<Rightarrow> exn + nat" where
  "py_len (JStr s) = Inr (length s)"
| "py_len (JArr xs) = Inr (length xs)"
| "py_len (JObj kvs) = Inr (length (remdups (map fst kvs)))"
| "py_len v =
     Inl (Exn TypeError (''object of type '' @ [CHR 0x27] @ type_name v @ [CHR 0x27]
                          @ '' has no len()''))"

text \<open>
  The items \<^verbatim>\<open>for feature in x\<close> visits: the elements of a \<^verbatim>\<open>list\<close>, the one-character
  strings of a \<^verbatim>\<open>str\<close>, the keys of a \<^verbatim>\<open>dict\<close>.
\<close>

fun py_iter :: "json \<Rightarrow> exn + json list" where
  "py_iter (JArr xs) = Inr xs"
| "py_iter (JStr s) = Inr (map (\<lambda>c. JStr [c]) s)"
| "py_iter (JObj kvs) = Inr (map JStr (remdups (map fst kvs)))"
| "py_iter v =
     Inl (Exn TypeError ([CHR 0x27] @ type_name v @ [CHR 0x27] @ '' object is not iterable''))"

text \<open>\<^verbatim>\<open>x.get(key, default)\<close>: only a \<^verbatim>\<open>dict\<close> has the method.\<close>

definition dict_get :: "(string \<times> json) list \<Rightarrow> string \<Rightarrow> json \<Rightarrow> json" where
  "dict_get kvs key dflt = (case map_of kvs key of None \<Rightarrow> dflt | Some v \<Rightarrow> v)"

fun py_get :: "json \<Rightarrow> string \<Rightarrow> json \<Rightarrow> exn + json" where
  "py_get (JObj kvs) key dflt = Inr (dict_get kvs key dflt)"
| "py_get v key dflt =
     Inl (Exn AttributeError ([CHR 0x27] @ type_name v @ [CHR 0x27]
                               @ '' object has no attribute '' @ [CHR 0x27] @ ''get'' @ [CHR 0x27]))"

text \<open>
  \<^verbatim>\<open>x[i]\<close> for the literal indices 0, 1 and 2: out of range raises \<^verbatim>\<open>IndexError\<close>, a
  \<^verbatim>\<open>dict\<close> (whose keys are strings) raises \<^verbatim>\<open>KeyError\<close>.
\<close>

fun py_getitem :: "json \<Rightarrow> nat \<Rightarrow> exn + json" where
  "py_getitem (JArr xs) i =
     (if i < length xs then Inr (xs ! i) else Inl (Exn IndexError ''list index out of range''))"
| "py_getitem (JStr s) i =
     (if i < length s then Inr (JStr [s ! i])
      else Inl (Exn IndexError ''string index out of range''))"
| "py_getitem (JObj kvs) i = Inl (Exn KeyError (if i = 0 then ''0'' else if i = 1 then ''1'' else ''2''))"
| "py_getitem v i =
     Inl (Exn TypeError ([CHR 0x27] @ type_name v @ [CHR 0x27] @ '' object is not subscriptable''))"

section \<open>The normalizer: \<^verbatim>\<open>process_earthquake_data\<close>\<close>

text \<open>The value of the \<^verbatim>\<open>time\<close> column: a timestamp, counted in epoch milliseconds, or absent.\<close>

datatype pytime = NaT | Timestamp real

text \<open>
  Modelled from the spec: \<^verbatim>\<open>pd.to_datetime(v, unit="ms", errors="coerce")\<close> is pandas code,
  not part of the repository. The specification gives its contract: the value is
  ``interpreted as epoch milliseconds; any missing or non-numeric value converts to an
  explicit absent marker rather than failing the whole conversion''.
\<close>

fun to_datetime :: "json \<Rightarrow> pytime" where
  "to_datetime (JInt n) = Timestamp (of_int n)"
| "to_datetime (JFloat r) = Timestamp r"
| "to_datetime v = NaT"

text \<open>A cell of a row: a value passed through from the payload, or a converted time.\<close>

datatype cell = Val json | Time pytime

type_synonym row = "(string \<times> cell) list"

text \<open>
  Modelled from the spec: \<^verbatim>\<open>pd.DataFrame\<close> is pandas code, not part of the repository.
  The specification describes the result as a sequence of records, in input order, that
  carries a column schema even when it is empty. So a frame is its column labels and its
  rows in order: \<^verbatim>\<open>pd.DataFrame(columns=cs)\<close> has the labels \<^verbatim>\<open>cs\<close> and no row, and
  \<^verbatim>\<open>pd.DataFrame(records)\<close> on a list of dictionaries has one row per dictionary and their
  keys, in order of first appearance, as labels.
\<close>

record dataframe =
  columns :: "string list"
  rows :: "row list"

definition DataFrame_columns :: "string list \<Rightarrow> dataframe" where
  "DataFrame_columns cs = \<lparr>columns = cs, rows = []\<rparr>"

definition DataFrame_records :: "row list \<Rightarrow> dataframe" where
  "DataFrame_records records =
     \<lparr>columns = rev (remdups (rev (concat (map (map fst) records)))), rows = records\<rparr>"

definition schema :: "string list" where
  "schema = [''place'', ''magnitude'', ''time'', ''longitude'', ''latitude'', ''depth_km'',
             ''tsunami_flag'', ''felt_reports'']"

text \<open>
  The body of the loop (lines 89 to 102): the three lookups, then the dictionary literal,
  its entries evaluated top to bottom. Any step that raises ends the whole call.
\<close>

definition feature_record :: "json \<Rightarrow> exn + row" where
  "feature_record feature =
     and_then (py_get feature ''properties'' (JObj [])) (\<lambda>properties.
     and_then (py_get feature ''geometry'' (JObj [])) (\<lambda>geometry.
     and_then (py_get geometry ''coordinates'' (JArr [JNull, JNull, JNull])) (\<lambda>coordinates.
     and_then (py_get properties ''place'' JNull) (\<lambda>place.
     and_then (py_get properties ''mag'' JNull) (\<lambda>mag.
     and_then (py_get properties ''time'' JNull) (\<lambda>time.
     and_then (py_getitem coordinates 0) (\<lambda>longitude.
     and_then (py_getitem coordinates 1) (\<lambda>latitude.
     and_then (py_getitem coordinates 2) (\<lambda>depth_km.
     and_then (py_get properties ''tsunami'' JNull) (\<lambda>tsunami.
     and_then (py_get properties ''felt'' JNull) (\<lambda>felt.
       Inr [(''place'', Val place),
            (''magnitude'', Val mag),
            (''time'', Time (to_datetime time)),
            (''longitude'', Val longitude),
            (''latitude'', Val latitude),
            (''depth_km'', Val depth_km),
            (''tsunami_flag'', Val tsunami),
            (''felt_reports'', Val felt)])))))))))))"

text \<open>The loop over the features, \<^verbatim>\<open>records\<close> growing at its end.\<close>

fun process_loop :: "json list \<Rightarrow> row list \<Rightarrow> exn + row list" where
  "process_loop [] records = Inr records"
| "process_loop (feature # rest) records =
     and_then (feature_record feature) (\<lambda>r. process_loop rest (records @ [r]))"

text \<open>
  The guard of line 72 is an \<^verbatim>\<open>or\<close> of three tests, each evaluated only when the ones
  before it are false; the second and third can raise.
\<close>

definition process_earthquake_data :: "json \<Rightarrow> exn + dataframe" where
  "process_earthquake_data data =
     (if \<not> truthy data then Inr (DataFrame_columns schema)
      else and_then (py_in ''features'' data) (\<lambda>present.
        if \<not> present then Inr (DataFrame_columns schema)
        else and_then (py_getitem_key data ''features'') (\<lambda>features.
          and_then (py_len features) (\<lambda>n.
            if n = 0 then Inr (DataFrame_columns schema)
            else and_then (py_iter features) (\<lambda>items.
              and_then (process_loop items []) (\<lambda>records.
                Inr (DataFrame_records records)))))))"

text \<open>
  The shapes on which the loop body goes through: a feature is a \<^verbatim>\<open>dict\<close> whose
  \<^verbatim>\<open>properties\<close> and \<^verbatim>\<open>geometry\<close>, where the key is there, are \<^verbatim>\<open>dict\<close>s, and whose
  \<^verbatim>\<open>coordinates\<close>, where the key is there, can be read at positions 0, 1 and 2.
\<close>

fun is_dict :: "json \<Rightarrow> bool" where
  "is_dict (JObj kvs) = True"
| "is_dict v = False"

fun has_triple :: "json \<Rightarrow> bool" where
  "has_triple (JArr xs) = (3 \<le> length xs)"
| "has_triple (JStr s) = (3 \<le> length s)"
| "has_triple v = False"

fun wf_geometry :: "json \<Rightarrow> bool" where
  "wf_geometry (JObj gk) = has_triple (dict_get gk ''coordinates'' (JArr [JNull, JNull, JNull]))"
| "wf_geometry v = False"

fun wf_feature :: "json \<Rightarrow> bool" where
  "wf_feature (JObj kvs) =
     (is_dict (dict_get kvs ''properties'' (JObj [])) \<and>
      wf_geometry (dict_get kvs ''geometry'' (JObj [])))"
| "wf_feature v = False"

text \<open>
  What a feature holds under \<^verbatim>\<open>geometry.coordinates\<close> and under \<^verbatim>\<open>properties.time\<close>, when
  the keys are there.
\<close>

fun coordinates_of :: "json \<Rightarrow> json option" where
  "coordinates_of (JObj kvs) =
     (case map_of kvs ''geometry'' of
        Some (JObj gk) \<Rightarrow> map_of gk ''coordinates''
      | _ \<Rightarrow> None)"
| "coordinates_of v = None"

fun time_of :: "json \<Rightarrow> json option" where
  "time_of (JObj kvs) =
     (case map_of kvs ''properties'' of
        Some (JObj pk) \<Rightarrow> map_of pk ''time''
      | _ \<Rightarrow> None)"
| "time_of v = None"

text \<open>What a feature holds under \<^verbatim>\<open>properties.<key>\<close>, when the keys are there.\<close>

fun property_of :: "json \<Rightarrow> string \<Rightarrow> json option" where
  "property_of (JObj kvs) key =
     (case map_of kvs ''properties'' of
        Some (JObj pk) \<Rightarrow> map_of pk key
      | _ \<Rightarrow> None)"
| "property_of v key = None"

text \<open>
  A feature in which keys may be missing but nothing that is present is malformed: the
  shapes above, and a \<^verbatim>\<open>time\<close> that, where present, is a scalar (a number, a string, a
  boolean or null) and not a list or a mapping.
\<close>

fun is_scalar :: "json \<Rightarrow> bool" where
  "is_scalar (JArr xs) = False"
| "is_scalar (JObj kvs) = False"
| "is_scalar v = True"

definition plain_feature :: "json \<Rightarrow> bool" where
  "plain_feature f =
     (wf_feature f \<and> (case time_of f of None \<Rightarrow> True | Some t \<Rightarrow> is_scalar t))"

text \<open>The feature with its \<^verbatim>\<open>geometry\<close> replaced by one that holds the coordinates \<open>cs\<close>.\<close>

fun with_coordinates :: "json \<Rightarrow> json list \<Rightarrow> json" where
  "with_coordinates (JObj kvs) cs =
     JObj ((''geometry'', JObj [(''coordinates'', JArr cs)]) # kvs)"
| "with_coordinates v cs = v"

section \<open>The fetcher: \<^verbatim>\<open>fetch_earthquake_data\<close>\<close>

text \<open>
  What the function hands to \<^verbatim>\<open>requests.get\<close>, which sends a GET, and what it reads of
  the response: whether \<^verbatim>\<open>raise_for_status()\<close> raises its \<^verbatim>\<open>HTTPError\<close> (and with which
  text), the body \<^verbatim>\<open>text\<close>, and what \<^verbatim>\<open>json()\<close> returns or raises. The body text is a
  Python \<^verbatim>\<open>str\<close>, a sequence of Unicode code points.
\<close>

datatype param = PStr string | PFloat real | PInt int

record request =
  req_method :: string
  req_url :: string
  req_params :: "(string \<times> param) list"
  req_timeout :: nat

record response =
  resp_raise_for_status :: "string option"
  resp_text :: "nat list"
  resp_json :: "exn + json"

text \<open>
  The two effects: every request sent is logged, and every \<^verbatim>\<open>st.error\<close> message is
  appended to the diagnostics shown to the user.
\<close>

record world =
  requests_sent :: "request list"
  diagnostics :: "string list"

definition requests_get ::
  "(request \<Rightarrow> exn + response) \<Rightarrow> request \<Rightarrow> world \<Rightarrow> (exn + response) \<times> world" where
  "requests_get net req w = (net req, w\<lparr>requests_sent := requests_sent w @ [req]\<rparr>)"

definition st_error :: "string \<Rightarrow> world \<Rightarrow> world" where
  "st_error msg w = w\<lparr>diagnostics := diagnostics w @ [msg]\<rparr>"

text \<open>
  \<^verbatim>\<open>str.strip()\<close>: white space removed at both ends. White space is what \<^verbatim>\<open>str.isspace\<close>
  accepts: U+0009 to U+000D, U+001C to U+001F, U+0020, U+0085, U+00A0, U+1680, U+2000 to
  U+200A, U+2028, U+2029, U+202F, U+205F and U+3000.
\<close>

definition py_isspace :: "nat \<Rightarrow> bool" where
  "py_isspace c =
     ((0x09 \<le> c \<and> c \<le> 0x0D) \<or> (0x1C \<le> c \<and> c \<le> 0x20) \<or> c = 0x85 \<or> c = 0xA0
      \<or> c = 0x1680 \<or> (0x2000 \<le> c \<and> c \<le> 0x200A) \<or> c = 0x2028 \<or> c = 0x2029
      \<or> c = 0x202F \<or> c = 0x205F \<or> c = 0x3000)"

definition strip :: "nat list \<Rightarrow> nat list" where
  "strip s = rev (dropWhile py_isspace (rev (dropWhile py_isspace s)))"

text \<open>The code points of an ASCII literal.\<close>

definition codepoints :: "string \<Rightarrow> nat list" where
  "codepoints s = map of_char s"

definition empty_payload :: json where
  "empty_payload = JObj [(''features'', JArr [])]"

text \<open>The \<^verbatim>\<open>try\<close> block, lines 31 to 48, from the outcome of the request on.\<close>

definition fetch_try :: "exn + response \<Rightarrow> exn + json" where
  "fetch_try got =
     and_then got (\<lambda>response.
       case resp_raise_for_status response of
         Some msg \<Rightarrow> Inl (Exn HTTPError msg)
       | None \<Rightarrow>
           if strip (resp_text response) = []
           then Inl (Exn ValueError ''Empty response received from API'')
           else and_then (resp_json response) (\<lambda>data.
             and_then (py_in ''features'' data) (\<lambda>present.
               if \<not> present then Inl (Exn ValueError ''Unexpected API response structure'')
               else Inr data)))"

definition fetch_request :: "real \<Rightarrow> int \<Rightarrow> request" where
  "fetch_request min_magnitude limit =
     \<lparr>req_method = ''GET'',
      req_url = ''https://earthquake.usgs.gov/fdsnws/event/1/query'',
      req_params = [(''format'', PStr ''geojson''),
                    (''orderby'', PStr ''time''),
                    (''minmagnitude'', PFloat min_magnitude),
                    (''limit'', PInt limit)],
      req_timeout = 10\<rparr>"

text \<open>
  The whole function: the request, the \<^verbatim>\<open>try\<close> block, and the four \<^verbatim>\<open>except\<close> clauses
  tried in their order. \<^verbatim>\<open>net\<close> is the outside world: what \<^verbatim>\<open>requests.get\<close> does with the
  request.
\<close>

definition fetch_earthquake_data ::
  "(request \<Rightarrow> exn + response) \<Rightarrow> real \<Rightarrow> int \<Rightarrow> world \<Rightarrow> json \<times> world" where
  "fetch_earthquake_data net min_magnitude limit w =
     (case requests_get net (fetch_request min_magnitude limit) w of (got, w1) \<Rightarrow>
        (case fetch_try got of
           Inr data \<Rightarrow> (data, w1)
         | Inl e \<Rightarrow>
             if exn_cls e = Timeout then
               (JObj [(''features'', JArr [])],
                st_error ''Request timed out while contacting the earthquake API.'' w1)
             else if exn_cls e = HTTPError then
               (JObj [(''features'', JArr [])],
                st_error (''HTTP error occurred: '' @ exn_str e) w1)
             else if exn_cls e = JSONDecodeError then
               (JObj [(''features'', JArr [])],
                st_error ''Failed to decode API response as JSON.'' w1)
             else
               (JObj [(''features'', JArr [])],
                st_error (''Unexpected error occurred: '' @ exn_str e) w1)))"

text \<open>The filters the sidebar can supply (lines 117 to 129).\<close>

definition valid_filter :: "real \<Rightarrow> int \<Rightarrow> bool" where
  "valid_filter min_magnitude limit =
     (0 \<le> min_magnitude \<and> min_magnitude \<le> 8 \<and> limit \<in> {50, 100, 250, 500})"

text \<open>A payload with the top-level key: a mapping that has \<^verbatim>\<open>features\<close> among its keys.\<close>

fun has_features_key :: "json \<Rightarrow> bool" where
  "has_features_key (JObj kvs) = (''features'' \<in> set (map fst kvs))"
| "has_features_key v = False"

text \<open>
  The failure kinds of the specification, assigned to the outcome of a request by the
  validation order it gives: (a) transport, (b) status, (c) body not empty after
  trimming, (d) body parses, (e) the parsed body contains the top-level \<^verbatim>\<open>features\<close> key.
  An exception raised by the transport or by the parser is filed by its class.
\<close>

datatype failure_kind =
    TimeoutError
  | HttpStatusError
  | EmptyResponseError
  | MalformedBodyError
  | UnexpectedStructureError
  | UnknownError

definition kind_of_exn :: "exn \<Rightarrow> failure_kind" where
  "kind_of_exn e =
     (if exn_cls e = Timeout then TimeoutError
      else if exn_cls e = HTTPError then HttpStatusError
      else if exn_cls e = JSONDecodeError then MalformedBodyError
      else UnknownError)"

definition classify :: "exn + response \<Rightarrow> failure_kind option" where
  "classify got =
     (case got of
        Inl e \<Rightarrow> Some (kind_of_exn e)
      | Inr response \<Rightarrow>
          (case resp_raise_for_status response of
             Some msg \<Rightarrow> Some HttpStatusError
           | None \<Rightarrow>
               if strip (resp_text response) = [] then Some EmptyResponseError
               else (case resp_json response of
                       Inl e \<Rightarrow> Some (kind_of_exn e)
                     | Inr data \<Rightarrow>
                         if has_features_key data then None
                         else Some UnexpectedStructureError)))"

text \<open>
  The message shown for each kind; the second argument is the text that the messages
  with a variable part embed.
\<close>

fun diagnostic :: "failure_kind \<Rightarrow> string \<Rightarrow> string" where
  "diagnostic TimeoutError detail = ''Request timed out while contacting the earthquake API.''"
| "diagnostic HttpStatusError detail = ''HTTP error occurred: '' @ detail"
| "diagnostic MalformedBodyError detail = ''Failed to decode API response as JSON.''"
| "diagnostic EmptyResponseError detail =
     ''Unexpected error occurred: Empty response received from API''"
| "diagnostic UnexpectedStructureError detail = ''Unexpected error occurred: '' @ detail"
| "diagnostic UnknownError detail = ''Unexpected error occurred: '' @ detail"

text \<open>
  The outcomes on which the test of line 45 and step (e) part: the body parses to a value
  that passes \<^verbatim>\<open>"features" in data\<close> without being a mapping with that key.
\<close>

definition membership_only :: "exn + response \<Rightarrow> bool" where
  "membership_only got =
     (case got of
        Inl e \<Rightarrow> False
      | Inr response \<Rightarrow>
          (case resp_json response of
             Inl e \<Rightarrow> False
           | Inr data \<Rightarrow> py_in ''features'' data = Inr True \<and> \<not> has_features_key data))"

section \<open>The normalizer on a store\<close>

text \<open>
  For the question of what \<^verbatim>\<open>process_earthquake_data\<close> writes and shares, lists and
  dictionaries are objects in a store, addressed by their position in it, and a value
  is a scalar or a reference to such an object. The same lines of the source are read
  again at this level: \<^verbatim>\<open>{}\<close>, \<^verbatim>\<open>[None, None, None]\<close>, \<^verbatim>\<open>records = []\<close>, the list of
  column names and each record literal allocate an object, and \<^verbatim>\<open>records.append\<close>
  overwrites one.
\<close>

datatype pval =
    VNone
  | VBool bool
  | VInt int
  | VFloat real
  | VStr string
  | VTime pytime
  | VRef nat

datatype pobj = OList "pval list" | ODict "(string \<times> pval) list"

type_synonym heap = "pobj list"

fun look :: "heap \<Rightarrow> pval \<Rightarrow> pobj option" where
  "look h (VRef a) = (if a < length h then Some (h ! a) else None)"
| "look h v = None"

definition alloc :: "pobj \<Rightarrow> heap \<Rightarrow> pval \<times> heap" where
  "alloc ob h = (VRef (length h), h @ [ob])"

fun h_type_name :: "heap \<Rightarrow> pval \<Rightarrow> string" where
  "h_type_name h VNone = ''NoneType''"
| "h_type_name h (VBool b) = ''bool''"
| "h_type_name h (VInt n) = ''int''"
| "h_type_name h (VFloat r) = ''float''"
| "h_type_name h (VStr s) = ''str''"
| "h_type_name h (VTime t) = ''Timestamp''"
| "h_type_name h (VRef a) =
     (case look h (VRef a) of
        Some (OList xs) \<Rightarrow> ''list''
      | Some (ODict kvs) \<Rightarrow> ''dict''
      | None \<Rightarrow> ''object'')"

definition h_truthy :: "heap \<Rightarrow> pval \<Rightarrow> bool" where
  "h_truthy h v =
     (case look h v of
        Some (OList xs) \<Rightarrow> xs \<noteq> []
      | Some (ODict kvs) \<Rightarrow> kvs \<noteq> []
      | None \<Rightarrow>
          (case v of
             VNone \<Rightarrow> False
           | VBool b \<Rightarrow> b
           | VInt n \<Rightarrow> n \<noteq> 0
           | VFloat r \<Rightarrow> r \<noteq> 0
           | VStr s \<Rightarrow> s \<noteq> []
           | _ \<Rightarrow> True))"

definition h_in :: "string \<Rightarrow> pval \<Rightarrow> heap \<Rightarrow> exn + bool" where
  "h_in key v h =
     (case look h v of
        Some (ODict kvs) \<Rightarrow> Inr (key \<in> set (map fst kvs))
      | Some (OList xs) \<Rightarrow> Inr (VStr key \<in> set xs)
      | None \<Rightarrow>
          (case v of
             VStr s \<Rightarrow> Inr (str_contains key s)
           | _ \<Rightarrow> Inl (Exn TypeError (''argument of type '' @ [CHR 0x27] @ h_type_name h v
                                       @ [CHR 0x27] @ '' is not iterable''))))"

definition h_getitem_key :: "pval \<Rightarrow> string \<Rightarrow> heap \<Rightarrow> exn + pval" where
  "h_getitem_key v key h =
     (case look h v of
        Some (ODict kvs) \<Rightarrow>
          (case map_of kvs key of
             None \<Rightarrow> Inl (Exn KeyError ([CHR 0x27] @ key @ [CHR 0x27]))
           | Some x \<Rightarrow> Inr x)
      | Some (OList xs) \<Rightarrow>
          Inl (Exn TypeError ''list indices must be integers or slices, not str'')
      | None \<Rightarrow>
          (case v of
             VStr s \<Rightarrow> Inl (Exn TypeError (''string indices must be integers, not '' @ [CHR 0x27] @ ''str'' @ [CHR 0x27]))
           | _ \<Rightarrow> Inl (Exn TypeError ([CHR 0x27] @ h_type_name h v @ [CHR 0x27]
                                       @ '' object is not subscriptable''))))"

definition h_len :: "pval \<Rightarrow> heap \<Rightarrow> exn + nat" where
  "h_len v h =
     (case look h v of
        Some (OList xs) \<Rightarrow> Inr (length xs)
      | Some (ODict kvs) \<Rightarrow> Inr (length (remdups (map fst kvs)))
      | None \<Rightarrow>
          (case v of
             VStr s \<Rightarrow> Inr (length s)
           | _ \<Rightarrow> Inl (Exn TypeError (''object of type '' @ [CHR 0x27] @ h_type_name h v
                                       @ [CHR 0x27] @ '' has no len()''))))"

definition h_iter :: "pval \<Rightarrow> heap \<Rightarrow> exn + pval list" where
  "h_iter v h =
     (case look h v of
        Some (OList xs) \<Rightarrow> Inr xs
      | Some (ODict kvs) \<Rightarrow> Inr (map VStr (remdups (map fst kvs)))
      | None \<Rightarrow>
          (case v of
             VStr s \<Rightarrow> Inr (map (\<lambda>c. VStr [c]) s)
           | _ \<Rightarrow> Inl (Exn TypeError ([CHR 0x27] @ h_type_name h v @ [CHR 0x27]
                                       @ '' object is not iterable''))))"

definition no_get :: "heap \<Rightarrow> pval \<Rightarrow> exn" where
  "no_get h v = Exn AttributeError ([CHR 0x27] @ h_type_name h v @ [CHR 0x27]
                   @ '' object has no attribute '' @ [CHR 0x27] @ ''get'' @ [CHR 0x27])"

text \<open>
  \<^verbatim>\<open>x.get(key, <literal>)\<close>: the method is looked up first, then the literal is
  allocated, whether or not the key is there.
\<close>

definition h_get_fresh :: "pval \<Rightarrow> string \<Rightarrow> pobj \<Rightarrow> heap \<Rightarrow> (exn + pval) \<times> heap" where
  "h_get_fresh v key dflt h =
     (case look h v of
        Some (ODict kvs) \<Rightarrow>
          (case alloc dflt h of
             (d, h') \<Rightarrow> (Inr (case map_of kvs key of None \<Rightarrow> d | Some x \<Rightarrow> x), h'))
      | _ \<Rightarrow> (Inl (no_get h v), h))"

text \<open>\<^verbatim>\<open>x.get(key)\<close>, with \<^verbatim>\<open>None\<close> for a missing key.\<close>

definition h_get :: "pval \<Rightarrow> string \<Rightarrow> heap \<Rightarrow> exn + pval" where
  "h_get v key h =
     (case look h v of
        Some (ODict kvs) \<Rightarrow> Inr (case map_of kvs key of None \<Rightarrow> VNone | Some x \<Rightarrow> x)
      | _ \<Rightarrow> Inl (no_get h v))"

definition h_getitem :: "pval \<Rightarrow> nat \<Rightarrow> heap \<Rightarrow> exn + pval" where
  "h_getitem v i h =
     (case look h v of
        Some (OList xs) \<Rightarrow>
          (if i < length xs then Inr (xs ! i) else Inl (Exn IndexError ''list index out of range''))
      | Some (ODict kvs) \<Rightarrow>
          Inl (Exn KeyError (if i = 0 then ''0'' else if i = 1 then ''1'' else ''2''))
      | None \<Rightarrow>
          (case v of
             VStr s \<Rightarrow>
               (if i < length s then Inr (VStr [s ! i])
                else Inl (Exn IndexError ''string index out of range''))
           | _ \<Rightarrow> Inl (Exn TypeError ([CHR 0x27] @ h_type_name h v @ [CHR 0x27]
                                       @ '' object is not subscriptable''))))"

text \<open>Modelled from the spec: the conversion of \<^const>\<open>to_datetime\<close>, on store values.\<close>

fun h_to_datetime :: "pval \<Rightarrow> pytime" where
  "h_to_datetime (VInt n) = Timestamp (of_int n)"
| "h_to_datetime (VFloat r) = Timestamp r"
| "h_to_datetime v = NaT"

text \<open>\<^verbatim>\<open>records.append(row)\<close>: the one write to an object that already exists.\<close>

definition h_append :: "pval \<Rightarrow> pval \<Rightarrow> heap \<Rightarrow> heap" where
  "h_append records row h =
     (case records of
        VRef a \<Rightarrow>
          (case look h records of
             Some (OList xs) \<Rightarrow> h[a := OList (xs @ [row])]
           | _ \<Rightarrow> h)
      | _ \<Rightarrow> h)"

text \<open>A step that may raise and may change the store, and the sequencing of two.\<close>

definition h_then ::
  "(heap \<Rightarrow> (exn + 'a) \<times> heap) \<Rightarrow> ('a \<Rightarrow> heap \<Rightarrow> (exn + 'b) \<times> heap)
     \<Rightarrow> heap \<Rightarrow> (exn + 'b) \<times> heap" where
  "h_then m f h = (case m h of (Inl e, h') \<Rightarrow> (Inl e, h') | (Inr v, h') \<Rightarrow> f v h')"

definition h_read :: "(heap \<Rightarrow> exn + 'a) \<Rightarrow> heap \<Rightarrow> (exn + 'a) \<times> heap" where
  "h_read r h = (r h, h)"

definition h_new :: "pobj \<Rightarrow> heap \<Rightarrow> (exn + pval) \<times> heap" where
  "h_new ob h = (case alloc ob h of (v, h') \<Rightarrow> (Inr v, h'))"

text \<open>The loop body, lines 89 to 102, returning the reference to the new record.\<close>

definition h_feature_record :: "pval \<Rightarrow> heap \<Rightarrow> (exn + pval) \<times> heap" where
  "h_feature_record feature =
     h_then (h_get_fresh feature ''properties'' (ODict [])) (\<lambda>properties.
     h_then (h_get_fresh feature ''geometry'' (ODict [])) (\<lambda>geometry.
     h_then (h_get_fresh geometry ''coordinates'' (OList [VNone, VNone, VNone])) (\<lambda>coordinates.
     h_then (h_read (h_get properties ''place'')) (\<lambda>place.
     h_then (h_read (h_get properties ''mag'')) (\<lambda>mag.
     h_then (h_read (h_get properties ''time'')) (\<lambda>time.
     h_then (h_read (h_getitem coordinates 0)) (\<lambda>longitude.
     h_then (h_read (h_getitem coordinates 1)) (\<lambda>latitude.
     h_then (h_read (h_getitem coordinates 2)) (\<lambda>depth_km.
     h_then (h_read (h_get properties ''tsunami'')) (\<lambda>tsunami.
     h_then (h_read (h_get properties ''felt'')) (\<lambda>felt.
       h_new (ODict [(''place'', place),
                     (''magnitude'', mag),
                     (''time'', VTime (h_to_datetime time)),
                     (''longitude'', longitude),
                     (''latitude'', latitude),
                     (''depth_km'', depth_km),
                     (''tsunami_flag'', tsunami),
                     (''felt_reports'', felt)]))))))))))))"

fun h_process_loop :: "pval list \<Rightarrow> pval \<Rightarrow> heap \<Rightarrow> (exn + unit) \<times> heap" where
  "h_process_loop [] records h = (Inr (), h)"
| "h_process_loop (feature # rest) records h =
     (case h_feature_record feature h of
        (Inl e, h') \<Rightarrow> (Inl e, h')
      | (Inr row, h') \<Rightarrow> h_process_loop rest records (h_append records row h'))"

text \<open>
  Modelled from the spec: the frame handed back by \<^verbatim>\<open>pd.DataFrame\<close> (pandas code), read
  out of the store: one row per record in \<^verbatim>\<open>records\<close>, in order, with the labels and the
  cells that the record dictionaries built in lines 93 to 102 hold.
\<close>

record hframe =
  hcolumns :: "string list"
  hrows :: "(string \<times> pval) list list"

definition h_items :: "heap \<Rightarrow> pval \<Rightarrow> (string \<times> pval) list" where
  "h_items h v = (case look h v of Some (ODict kvs) \<Rightarrow> kvs | _ \<Rightarrow> [])"

definition h_elements :: "heap \<Rightarrow> pval \<Rightarrow> pval list" where
  "h_elements h v = (case look h v of Some (OList xs) \<Rightarrow> xs | _ \<Rightarrow> [])"

definition h_DataFrame_records :: "pval \<Rightarrow> heap \<Rightarrow> hframe" where
  "h_DataFrame_records records h =
     \<lparr>hcolumns = rev (remdups (rev (concat (map (map fst \<circ> h_items h) (h_elements h records))))),
      hrows = map (h_items h) (h_elements h records)\<rparr>"

definition h_DataFrame_columns :: "heap \<Rightarrow> (exn + hframe) \<times> heap" where
  "h_DataFrame_columns h =
     (case alloc (OList (map VStr schema)) h of
        (cs, h') \<Rightarrow> (Inr \<lparr>hcolumns = schema, hrows = []\<rparr>, h'))"

definition h_process_earthquake_data :: "pval \<Rightarrow> heap \<Rightarrow> (exn + hframe) \<times> heap" where
  "h_process_earthquake_data data h =
     (if \<not> h_truthy h data then h_DataFrame_columns h
      else
       (case h_in ''features'' data h of
          Inl e \<Rightarrow> (Inl e, h)
        | Inr present \<Rightarrow>
           (if \<not> present then h_DataFrame_columns h
            else
             (case h_getitem_key data ''features'' h of
                Inl e \<Rightarrow> (Inl e, h)
              | Inr features \<Rightarrow>
                 (case h_len features h of
                    Inl e \<Rightarrow> (Inl e, h)
                  | Inr n \<Rightarrow>
                     (if n = 0 then h_DataFrame_columns h
                      else
                       (case alloc (OList []) h of
                          (records, h1) \<Rightarrow>
                           (case h_iter features h1 of
                              Inl e \<Rightarrow> (Inl e, h1)
                            | Inr items \<Rightarrow>
                               (case h_process_loop items records h1 of
                                  (Inl e, h2) \<Rightarrow> (Inl e, h2)
                                | (Inr u, h2) \<Rightarrow>
                                    (Inr (h_DataFrame_records records h2), h2))))))))))"

text \<open>
  The values an object holds, as list elements or under its keys; a value held by some
  object of a store; a store without dangling references.
\<close>

fun held :: "pobj \<Rightarrow> pval set" where
  "held (OList xs) = set xs"
| "held (ODict kvs) = set (map snd kvs)"

definition held_in :: "heap \<Rightarrow> pval \<Rightarrow> bool" where
  "held_in h v = (\<exists>ob \<in> set h. v \<in> held ob)"

fun is_ref :: "pval \<Rightarrow> bool" where
  "is_ref (VRef a) = True"
| "is_ref v = False"

fun points_below :: "nat \<Rightarrow> pval \<Rightarrow> bool" where
  "points_below n (VRef a) = (a < n)"
| "points_below n v = True"

definition closed_store :: "heap \<Rightarrow> bool" where
  "closed_store h = (\<forall>ob \<in> set h. \<forall>v \<in> held ob. points_below (length h) v)"

text \<open>
  A value passed through from the store \<open>h0\<close>: a scalar, or a reference that \<open>h0\<close>
  itself holds. A value the loop body works with: one of these, or a reference to an
  object that holds no reference (the defaults \<^verbatim>\<open>{}\<close> and \<^verbatim>\<open>[None, None, None]\<close>).
\<close>

definition passed :: "heap \<Rightarrow> pval \<Rightarrow> bool" where
  "passed h0 v = (is_ref v \<longrightarrow> held_in h0 v)"

definition usable :: "heap \<Rightarrow> heap \<Rightarrow> pval \<Rightarrow> bool" where
  "usable h0 h v =
     (passed h0 v \<or> (\<exists>a. v = VRef a \<and> a < length h \<and> (\<forall>x \<in> held (h ! a). \<not> is_ref x)))"

text \<open>The records written so far: each a dictionary of the call's own, its cells passed through.\<close>

definition rows_ok :: "heap \<Rightarrow> heap \<Rightarrow> pval list \<Rightarrow> bool" where
  "rows_ok h0 h rs =
     (\<forall>r \<in> set rs. \<exists>a kvs. r = VRef a \<and> length h0 < a \<and> a < length h
                            \<and> h ! a = ODict kvs \<and> (\<forall>c \<in> set (map snd kvs). passed h0 c))"

text \<open>
  A step keeps the first \<open>n\<close> objects of the store when, started on a store that has
  them, it ends on one that is no shorter and has them unchanged.
\<close>

definition keeps :: "nat \<Rightarrow> (heap \<Rightarrow> 'a \<times> heap) \<Rightarrow> bool" where
  "keeps n m =
     (\<forall>h r h'. m h = (r, h') \<and> n \<le> length h \<longrightarrow> length h \<le> length h' \<and> take n h' = take n h)"

subsection \<open>Stores that represent a JSON value\<close>

text \<open>
  A store value represents a JSON value when scalars are equal and a reference leads to
  a list or dictionary whose entries represent those of the JSON value, one by one.
\<close>

inductive repr :: "heap \<Rightarrow> pval \<Rightarrow> json \<Rightarrow> bool" for h :: heap where
  repr_None: "repr h VNone JNull"
| repr_Bool: "repr h (VBool b) (JBool b)"
| repr_Int: "repr h (VInt n) (JInt n)"
| repr_Float: "repr h (VFloat x) (JFloat x)"
| repr_Str: "repr h (VStr s) (JStr s)"
| repr_List: "a < length h \<Longrightarrow> h ! a = OList vs \<Longrightarrow> list_all2 (repr h) vs js \<Longrightarrow>
              repr h (VRef a) (JArr js)"
| repr_Dict: "a < length h \<Longrightarrow> h ! a = ODict kvs \<Longrightarrow>
              list_all2 (\<lambda>kv kj. fst kv = fst kj \<and> repr h (snd kv) (snd kj)) kvs kjs \<Longrightarrow>
              repr h (VRef a) (JObj kjs)"

text \<open>A cell of a stored record against a cell of a row, and a frame against a frame.\<close>

fun cell_repr :: "heap \<Rightarrow> pval \<Rightarrow> cell \<Rightarrow> bool" where
  "cell_repr h v (Val j) = repr h v j"
| "cell_repr h v (Time t) = (v = VTime t)"

definition row_repr :: "heap \<Rightarrow> (string \<times> pval) list \<Rightarrow> row \<Rightarrow> bool" where
  "row_repr h kvs r = list_all2 (\<lambda>kv kc. fst kv = fst kc \<and> cell_repr h (snd kv) (snd kc)) kvs r"

definition frame_repr :: "heap \<Rightarrow> hframe \<Rightarrow> dataframe \<Rightarrow> bool" where
  "frame_repr h hf df = (hcolumns hf = columns df \<and> list_all2 (row_repr h) (hrows hf) (rows df))"

text \<open>
  Inside the loop body a value is either one of the payload, represented in the store
  \<open>h0\<close> the call started on, or one of the two defaults just allocated.
\<close>

definition srepr :: "heap \<Rightarrow> heap \<Rightarrow> pval \<Rightarrow> json \<Rightarrow> bool" where
  "srepr h0 h v j =
     (repr h0 v j
      \<or> (\<exists>a. v = VRef a \<and> a < length h
            \<and> ((h ! a = ODict [] \<and> j = JObj [])
               \<or> (h ! a = OList [VNone, VNone, VNone] \<and> j = JArr [JNull, JNull, JNull]))))"

text \<open>
  A step on the store matches a value-level result: both raise the same exception, or
  both return, the store has only grown, and the results are related.
\<close>

definition sim ::
  "(heap \<Rightarrow> 'a \<Rightarrow> 'b \<Rightarrow> bool) \<Rightarrow> (heap \<Rightarrow> (exn + 'a) \<times> heap) \<Rightarrow> heap \<Rightarrow> exn + 'b \<Rightarrow> bool" where
  "sim P m h x =
     (case m h of
        (Inl e, h') \<Rightarrow> x = Inl e
      | (Inr v, h') \<Rightarrow> (\<exists>ex y. h' = h @ ex \<and> x = Inr y \<and> P h' v y))"

text \<open>The records written so far against the rows collected so far.\<close>

definition rows_repr :: "heap \<Rightarrow> heap \<Rightarrow> pval list \<Rightarrow> row list \<Rightarrow> bool" where
  "rows_repr h0 h rs acc =
     list_all2 (\<lambda>r rw. \<exists>a kvs. r = VRef a \<and> length h0 < a \<and> a < length h
                              \<and> h ! a = ODict kvs \<and> row_repr h0 kvs rw) rs acc"

lemma and_then_Inr [simp]: "and_then (Inr v) f = f v" by (simp add: and_then_def)
lemma and_then_Inl [simp]: "and_then (Inl e) f = Inl e" by (simp add: and_then_def)

lemma and_then_eq_Inr: "and_then r f = Inr y \<longleftrightarrow> (\<exists>v. r = Inr v \<and> f v = Inr y)"
  by (cases r) simp_all

lemma and_then_isl: "isl r \<Longrightarrow> isl (and_then r f)"
  by (cases r) simp_all

lemma is_dict_conv: "is_dict v \<longleftrightarrow> (\<exists>kvs. v = JObj kvs)"
  by (cases v) simp_all

lemma py_get_not_dict: "\<not> is_dict v \<Longrightarrow> isl (py_get v key dflt)"
  by (cases v) simp_all

lemma has_triple_getitem: "has_triple c \<Longrightarrow> i < 3 \<Longrightarrow> \<exists>x. py_getitem c i = Inr x"
  by (cases c) auto

lemma getitem_has_triple: "py_getitem c 2 = Inr x \<Longrightarrow> has_triple c"
  by (cases c) (auto split: if_splits)

lemma not_triple_getitem: "\<not> has_triple c \<Longrightarrow> isl (py_getitem c 2)"
  by (cases c) auto

lemma feature_record_not_dict: "\<not> is_dict f \<Longrightarrow> isl (feature_record f)"
  unfolding feature_record_def by (intro and_then_isl py_get_not_dict)

lemma feature_record_geometry_not_dict:
  assumes "\<not> is_dict (dict_get kvs ''geometry'' (JObj []))"
  shows "isl (feature_record (JObj kvs))"
  using assms by (simp add: feature_record_def and_then_isl py_get_not_dict)

lemma feature_record_properties_not_dict:
  assumes "dict_get kvs ''geometry'' (JObj []) = JObj gk"
    and "\<not> is_dict (dict_get kvs ''properties'' (JObj []))"
  shows "isl (feature_record (JObj kvs))"
  using assms by (simp add: feature_record_def and_then_isl py_get_not_dict)

lemma feature_record_dicts:
  assumes "dict_get kvs ''properties'' (JObj []) = JObj pk"
    and "dict_get kvs ''geometry'' (JObj []) = JObj gk"
  shows "feature_record (JObj kvs) =
     and_then (py_getitem (dict_get gk ''coordinates'' (JArr [JNull, JNull, JNull])) 0) (\<lambda>longitude.
     and_then (py_getitem (dict_get gk ''coordinates'' (JArr [JNull, JNull, JNull])) 1) (\<lambda>latitude.
     and_then (py_getitem (dict_get gk ''coordinates'' (JArr [JNull, JNull, JNull])) 2) (\<lambda>depth_km.
       Inr [(''place'', Val (dict_get pk ''place'' JNull)),
            (''magnitude'', Val (dict_get pk ''mag'' JNull)),
            (''time'', Time (to_datetime (dict_get pk ''time'' JNull))),
            (''longitude'', Val longitude),
            (''latitude'', Val latitude),
            (''depth_km'', Val depth_km),
            (''tsunami_flag'', Val (dict_get pk ''tsunami'' JNull)),
            (''felt_reports'', Val (dict_get pk ''felt'' JNull))])))"
  using assms by (simp add: feature_record_def)

lemma feature_record_wf:
  assumes "wf_feature f"
  shows "\<exists>r. feature_record f = Inr r"
proof -
  from assms obtain kvs where f: "f = JObj kvs" by (cases f) simp_all
  from assms f obtain pk where p: "dict_get kvs ''properties'' (JObj []) = JObj pk"
    by (auto simp: is_dict_conv)
  from assms f obtain gk where g: "dict_get kvs ''geometry'' (JObj []) = JObj gk"
    by (cases "dict_get kvs ''geometry'' (JObj [])") simp_all
  let ?c = "dict_get gk ''coordinates'' (JArr [JNull, JNull, JNull])"
  from assms f g have t: "has_triple ?c" by simp
  obtain x0 where x0: "py_getitem ?c 0 = Inr x0" using has_triple_getitem[OF t, of 0] by auto
  obtain x1 where x1: "py_getitem ?c 1 = Inr x1" using has_triple_getitem[OF t, of 1] by auto
  obtain x2 where x2: "py_getitem ?c 2 = Inr x2" using has_triple_getitem[OF t, of 2] by auto
  show ?thesis unfolding f feature_record_dicts[OF p g] x0 x1 x2 and_then_Inr by blast
qed

lemma feature_record_not_wf:
  assumes "\<not> wf_feature f"
  shows "isl (feature_record f)"
proof (cases f)
  case (JObj kvs)
  show ?thesis
  proof (cases "dict_get kvs ''geometry'' (JObj [])")
    case g: (JObj gk)
    show ?thesis
    proof (cases "dict_get kvs ''properties'' (JObj [])")
      case p: (JObj pk)
      let ?c = "dict_get gk ''coordinates'' (JArr [JNull, JNull, JNull])"
      from assms JObj g p have nt: "\<not> has_triple ?c" by simp
      have "isl (py_getitem ?c 2)" using not_triple_getitem[OF nt] .
      then obtain e where e: "py_getitem ?c 2 = Inl e" by (cases "py_getitem ?c 2") simp_all
      show ?thesis unfolding JObj feature_record_dicts[OF p g] e
        by (cases "py_getitem ?c 0"; cases "py_getitem ?c 1") simp_all
    qed (simp_all add: JObj feature_record_properties_not_dict[OF g])
  qed (simp_all add: JObj feature_record_geometry_not_dict)
qed (simp_all add: feature_record_not_dict)

lemma feature_record_total_iff: "(\<exists>r. feature_record f = Inr r) \<longleftrightarrow> wf_feature f"
proof
  assume "\<exists>r. feature_record f = Inr r"
  then obtain r where r: "feature_record f = Inr r" by blast
  show "wf_feature f"
  proof (rule ccontr)
    assume "\<not> wf_feature f"
    from feature_record_not_wf[OF this] r show False by simp
  qed
qed (rule feature_record_wf)

lemma process_loop_Inr_iff:
  "process_loop fs acc = Inr rs \<longleftrightarrow> (\<exists>rs'. rs = acc @ rs' \<and> map feature_record fs = map Inr rs')"
proof (induction fs arbitrary: acc)
  case Nil
  then show ?case by auto
next
  case (Cons f fs)
  show ?case
  proof (cases "feature_record f")
    case (Inl e)
    then show ?thesis by auto
  next
    case (Inr r)
    then show ?thesis by (auto simp: Cons.IH Cons_eq_map_conv)
  qed
qed

lemma process_loop_wf:
  "list_all wf_feature fs \<Longrightarrow> \<exists>rs. process_loop fs acc = Inr rs"
proof (induction fs arbitrary: acc)
  case Nil
  then show ?case by simp
next
  case (Cons f fs)
  from Cons.prems obtain r where "feature_record f = Inr r" using feature_record_wf[of f] by auto
  with Cons show ?case by simp
qed

lemma process_loop_Inr_wf:
  "process_loop fs acc = Inr rs \<Longrightarrow> list_all wf_feature fs"
proof (induction fs arbitrary: acc)
  case Nil
  then show ?case by simp
next
  case (Cons f fs)
  then obtain r where r: "feature_record f = Inr r" and rest: "process_loop fs (acc @ [r]) = Inr rs"
    by (auto simp: and_then_eq_Inr)
  from r have "wf_feature f" using feature_record_total_iff by blast
  with Cons.IH[OF rest] show ?case by simp
qed

lemma process_loop_from_nil:
  "process_loop fs [] = Inr rs \<longleftrightarrow> map feature_record fs = map Inr rs"
  by (simp add: process_loop_Inr_iff)

lemma process_falsy: "\<not> truthy data \<Longrightarrow> process_earthquake_data data = Inr (DataFrame_columns schema)"
  by (simp add: process_earthquake_data_def)

lemma process_JObj_no_key:
  "map_of kvs ''features'' = None \<Longrightarrow> process_earthquake_data (JObj kvs) = Inr (DataFrame_columns schema)"
  by (simp add: process_earthquake_data_def map_of_eq_None_iff)

lemma process_JObj_key:
  assumes "map_of kvs ''features'' = Some v"
  shows "process_earthquake_data (JObj kvs) =
     and_then (py_len v) (\<lambda>n.
       if n = 0 then Inr (DataFrame_columns schema)
       else and_then (py_iter v) (\<lambda>items.
         and_then (process_loop items []) (\<lambda>records. Inr (DataFrame_records records))))"
proof -
  from assms have k: "''features'' \<in> fst ` set kvs" by (metis map_of_eq_None_iff option.distinct(1))
  from assms have ne: "kvs \<noteq> []" by auto
  show ?thesis using assms k ne by (simp add: process_earthquake_data_def)
qed

lemma process_JObj_features_list:
  assumes "map_of kvs ''features'' = Some (JArr fs)"
  shows "process_earthquake_data (JObj kvs) =
     (if fs = [] then Inr (DataFrame_columns schema)
      else and_then (process_loop fs []) (\<lambda>records. Inr (DataFrame_records records)))"
  by (simp add: process_JObj_key[OF assms])

lemma DataFrame_columns_schema:
  "DataFrame_columns schema =
     \<lparr>columns = [''place'', ''magnitude'', ''time'', ''longitude'', ''latitude'', ''depth_km'',
                 ''tsunami_flag'', ''felt_reports''], rows = []\<rparr>"
  by (simp add: DataFrame_columns_def schema_def)

lemma process_features_rows:
  assumes "map_of kvs ''features'' = Some (JArr fs)"
    and "list_all wf_feature fs"
  shows "\<exists>df. process_earthquake_data (JObj kvs) = Inr df
             \<and> length (rows df) = length fs
             \<and> map Inr (rows df) = map feature_record fs"
proof (cases "fs = []")
  case True
  then show ?thesis
    by (simp add: process_JObj_features_list[OF assms(1)] DataFrame_columns_def)
next
  case False
  from process_loop_wf[OF assms(2), of "[]"] obtain rs where rs: "process_loop fs [] = Inr rs"
    by blast
  then have m: "map feature_record fs = map Inr rs" by (simp add: process_loop_from_nil)
  then have "length fs = length rs" by (rule map_eq_imp_length_eq)
  with m False rs show ?thesis
    by (simp add: process_JObj_features_list[OF assms(1)] DataFrame_records_def)
qed

section \<open>Claims about the normalizer\<close>

text \<open>
  Claim C5. For a payload that is null, that is a mapping without the \<^verbatim>\<open>features\<close> key, or
  whose \<^verbatim>\<open>features\<close> is the empty sequence, the normalizer returns a frame with zero rows
  and exactly the eight columns place, magnitude, time, longitude, latitude, depth_km,
  tsunami_flag, felt_reports.
\<close>

theorem normalize_empty_keeps_schema:
  assumes "data = JNull
         \<or> (\<exists>kvs. data = JObj kvs \<and> map_of kvs ''features'' = None)
         \<or> (\<exists>kvs. data = JObj kvs \<and> map_of kvs ''features'' = Some (JArr []))"
  shows "process_earthquake_data data =
           Inr \<lparr>columns = [''place'', ''magnitude'', ''time'', ''longitude'', ''latitude'',
                            ''depth_km'', ''tsunami_flag'', ''felt_reports''],
                rows = []\<rparr>"
proof -
  have "process_earthquake_data data = Inr (DataFrame_columns schema)"
    using assms
  proof (elim disjE exE conjE)
    assume "data = JNull"
    then show ?thesis by (simp add: process_falsy)
  next
    fix kvs assume "data = JObj kvs" "map_of kvs ''features'' = None"
    then show ?thesis by (simp add: process_JObj_no_key)
  next
    fix kvs assume "data = JObj kvs" "map_of kvs ''features'' = Some (JArr [])"
    then show ?thesis by (simp add: process_JObj_features_list)
  qed
  then show ?thesis by (simp only: DataFrame_columns_schema)
qed

theorem normalize_empty_keeps_schema_witness:
  "process_earthquake_data JNull =
     Inr \<lparr>columns = [''place'', ''magnitude'', ''time'', ''longitude'', ''latitude'',
                      ''depth_km'', ''tsunami_flag'', ''felt_reports''], rows = []\<rparr>
   \<and> process_earthquake_data (JObj [(''type'', JStr ''FeatureCollection'')]) =
     Inr \<lparr>columns = [''place'', ''magnitude'', ''time'', ''longitude'', ''latitude'',
                      ''depth_km'', ''tsunami_flag'', ''felt_reports''], rows = []\<rparr>
   \<and> process_earthquake_data (JObj [(''features'', JArr [])]) =
     Inr \<lparr>columns = [''place'', ''magnitude'', ''time'', ''longitude'', ''latitude'',
                      ''depth_km'', ''tsunami_flag'', ''felt_reports''], rows = []\<rparr>"
proof (intro conjI)
  show "process_earthquake_data JNull =
     Inr \<lparr>columns = [''place'', ''magnitude'', ''time'', ''longitude'', ''latitude'',
                      ''depth_km'', ''tsunami_flag'', ''felt_reports''], rows = []\<rparr>"
    by (rule normalize_empty_keeps_schema) simp
  show "process_earthquake_data (JObj [(''type'', JStr ''FeatureCollection'')]) =
     Inr \<lparr>columns = [''place'', ''magnitude'', ''time'', ''longitude'', ''latitude'',
                      ''depth_km'', ''tsunami_flag'', ''felt_reports''], rows = []\<rparr>"
    by (rule normalize_empty_keeps_schema) simp
  show "process_earthquake_data (JObj [(''features'', JArr [])]) =
     Inr \<lparr>columns = [''place'', ''magnitude'', ''time'', ''longitude'', ''latitude'',
                      ''depth_km'', ''tsunami_flag'', ''felt_reports''], rows = []\<rparr>"
    by (rule normalize_empty_keeps_schema) simp
qed

text \<open>
  Claim C3. For a payload whose \<^verbatim>\<open>features\<close> is a sequence of N well-formed features, the
  normalizer returns exactly N rows, and the i-th row is the record built from the i-th
  feature: nothing is dropped and nothing is reordered.
\<close>

theorem normalize_one_record_per_feature:
  assumes "map_of kvs ''features'' = Some (JArr fs)"
    and "list_all wf_feature fs"
  shows "\<exists>df. process_earthquake_data (JObj kvs) = Inr df
             \<and> length (rows df) = length fs
             \<and> map Inr (rows df) = map feature_record fs"
  using assms by (rule process_features_rows)

theorem normalize_one_record_per_feature_witness:
  "\<exists>df. process_earthquake_data
          (JObj [(''features'',
                  JArr [JObj [(''properties'',
                               JObj [(''place'', JStr ''10km N of Test''), (''mag'', JFloat 4.5),
                                     (''time'', JInt 1700000000000), (''tsunami'', JInt 0),
                                     (''felt'', JInt 12)]),
                              (''geometry'',
                               JObj [(''coordinates'',
                                      JArr [JFloat (-122.4), JFloat 37.8, JFloat 10.5])])],
                        JObj [(''properties'', JObj [(''place'', JStr ''Nowhere'')])]])])
        = Inr df
      \<and> rows df =
          [[(''place'', Val (JStr ''10km N of Test'')), (''magnitude'', Val (JFloat 4.5)),
            (''time'', Time (Timestamp 1700000000000)),
            (''longitude'', Val (JFloat (-122.4))), (''latitude'', Val (JFloat 37.8)),
            (''depth_km'', Val (JFloat 10.5)),
            (''tsunami_flag'', Val (JInt 0)), (''felt_reports'', Val (JInt 12))],
           [(''place'', Val (JStr ''Nowhere'')), (''magnitude'', Val JNull),
            (''time'', Time NaT),
            (''longitude'', Val JNull), (''latitude'', Val JNull), (''depth_km'', Val JNull),
            (''tsunami_flag'', Val JNull), (''felt_reports'', Val JNull)]]"
  using normalize_one_record_per_feature
    [of "[(''features'',
                  JArr [JObj [(''properties'',
                               JObj [(''place'', JStr ''10km N of Test''), (''mag'', JFloat 4.5),
                                     (''time'', JInt 1700000000000), (''tsunami'', JInt 0),
                                     (''felt'', JInt 12)]),
                              (''geometry'',
                               JObj [(''coordinates'',
                                      JArr [JFloat (-122.4), JFloat 37.8, JFloat 10.5])])],
                        JObj [(''properties'', JObj [(''place'', JStr ''Nowhere'')])]])]"
        "[JObj [(''properties'',
                               JObj [(''place'', JStr ''10km N of Test''), (''mag'', JFloat 4.5),
                                     (''time'', JInt 1700000000000), (''tsunami'', JInt 0),
                                     (''felt'', JInt 12)]),
                              (''geometry'',
                               JObj [(''coordinates'',
                                      JArr [JFloat (-122.4), JFloat 37.8, JFloat 10.5])])],
                        JObj [(''properties'', JObj [(''place'', JStr ''Nowhere'')])]]"]
  by (auto simp: dict_get_def feature_record_def map_eq_Cons_conv)

lemma wf_feature_dicts:
  assumes "wf_feature f"
  obtains kvs pk gk where "f = JObj kvs"
    and "dict_get kvs ''properties'' (JObj []) = JObj pk"
    and "dict_get kvs ''geometry'' (JObj []) = JObj gk"
    and "has_triple (dict_get gk ''coordinates'' (JArr [JNull, JNull, JNull]))"
proof -
  from assms obtain kvs where f: "f = JObj kvs" by (cases f) simp_all
  from assms f obtain pk where p: "dict_get kvs ''properties'' (JObj []) = JObj pk"
    by (auto simp: is_dict_conv)
  from assms f obtain gk where g: "dict_get kvs ''geometry'' (JObj []) = JObj gk"
    by (cases "dict_get kvs ''geometry'' (JObj [])") simp_all
  from assms f g have "has_triple (dict_get gk ''coordinates'' (JArr [JNull, JNull, JNull]))"
    by simp
  with f p g that show thesis by blast
qed

lemma coordinates_of_dict_get:
  assumes "dict_get kvs ''geometry'' (JObj []) = JObj gk"
  shows "coordinates_of (JObj kvs) = map_of gk ''coordinates''"
  using assms by (auto simp: dict_get_def split: option.splits json.splits)

lemma time_of_dict_get:
  assumes "dict_get kvs ''properties'' (JObj []) = JObj pk"
  shows "time_of (JObj kvs) = map_of pk ''time''"
  using assms by (auto simp: dict_get_def split: option.splits json.splits)

lemma feature_record_fields:
  assumes "feature_record f = Inr r"
  obtains kvs pk gk x0 x1 x2 where "f = JObj kvs"
    and "dict_get kvs ''properties'' (JObj []) = JObj pk"
    and "dict_get kvs ''geometry'' (JObj []) = JObj gk"
    and "py_getitem (dict_get gk ''coordinates'' (JArr [JNull, JNull, JNull])) 0 = Inr x0"
    and "py_getitem (dict_get gk ''coordinates'' (JArr [JNull, JNull, JNull])) 1 = Inr x1"
    and "py_getitem (dict_get gk ''coordinates'' (JArr [JNull, JNull, JNull])) 2 = Inr x2"
    and "r = [(''place'', Val (dict_get pk ''place'' JNull)),
              (''magnitude'', Val (dict_get pk ''mag'' JNull)),
              (''time'', Time (to_datetime (dict_get pk ''time'' JNull))),
              (''longitude'', Val x0),
              (''latitude'', Val x1),
              (''depth_km'', Val x2),
              (''tsunami_flag'', Val (dict_get pk ''tsunami'' JNull)),
              (''felt_reports'', Val (dict_get pk ''felt'' JNull))]"
proof -
  from assms have "wf_feature f" using feature_record_total_iff by blast
  then obtain kvs pk gk where f: "f = JObj kvs"
    and p: "dict_get kvs ''properties'' (JObj []) = JObj pk"
    and g: "dict_get kvs ''geometry'' (JObj []) = JObj gk"
    and t: "has_triple (dict_get gk ''coordinates'' (JArr [JNull, JNull, JNull]))"
    by (rule wf_feature_dicts)
  let ?c = "dict_get gk ''coordinates'' (JArr [JNull, JNull, JNull])"
  obtain x0 where x0: "py_getitem ?c 0 = Inr x0" using has_triple_getitem[OF t, of 0] by auto
  obtain x1 where x1: "py_getitem ?c 1 = Inr x1" using has_triple_getitem[OF t, of 1] by auto
  obtain x2 where x2: "py_getitem ?c 2 = Inr x2" using has_triple_getitem[OF t, of 2] by auto
  from assms have "r = [(''place'', Val (dict_get pk ''place'' JNull)),
              (''magnitude'', Val (dict_get pk ''mag'' JNull)),
              (''time'', Time (to_datetime (dict_get pk ''time'' JNull))),
              (''longitude'', Val x0),
              (''latitude'', Val x1),
              (''depth_km'', Val x2),
              (''tsunami_flag'', Val (dict_get pk ''tsunami'' JNull)),
              (''felt_reports'', Val (dict_get pk ''felt'' JNull))]"
    unfolding f feature_record_dicts[OF p g] x0 x1 x2 and_then_Inr by simp
  with f p g x0 x1 x2 that show thesis by blast
qed

lemma property_of_dict_get:
  assumes "dict_get kvs ''properties'' (JObj []) = JObj pk"
  shows "property_of (JObj kvs) key = map_of pk key"
  using assms by (auto simp: dict_get_def split: option.splits json.splits)

lemma process_rows_described:
  assumes "map_of kvs ''features'' = Some (JArr fs)"
    and "list_all wf_feature fs"
  obtains df where "process_earthquake_data (JObj kvs) = Inr df"
    and "length (rows df) = length fs"
    and "\<And>i. i < length fs \<Longrightarrow> feature_record (fs ! i) = Inr (rows df ! i)"
proof -
  from process_features_rows[OF assms] obtain df
    where df: "process_earthquake_data (JObj kvs) = Inr df"
      and len: "length (rows df) = length fs"
      and m: "map Inr (rows df) = map feature_record fs"
    by blast
  have "feature_record (fs ! i) = Inr (rows df ! i)" if "i < length fs" for i
    using m that len by (metis nth_map)
  with df len that show thesis by blast
qed

text \<open>
  Claim C2, as stated, fails: a feature whose \<^verbatim>\<open>coordinates\<close> holds two numbers makes
  \<^verbatim>\<open>coordinates[2]\<close> raise \<^verbatim>\<open>IndexError\<close>, and the whole call raises with it.
\<close>

theorem normalize_total_counterexample:
  "process_earthquake_data
     (JObj [(''features'',
             JArr [JObj [(''properties'', JObj [(''place'', JStr ''Test'')]),
                         (''geometry'', JObj [(''coordinates'', JArr [JFloat 1, JFloat 2])])]])])
   = Inl (Exn IndexError ''list index out of range'')"
  by (simp add: process_earthquake_data_def feature_record_def dict_get_def)

text \<open>
  Claim C2, amended. On every payload whose \<^verbatim>\<open>features\<close> is a list of features, the empty
  list of the canonical empty payload included, in which keys may be missing but what is
  there has the shape the code reads it with (a feature is a mapping, \<^verbatim>\<open>properties\<close> and
  \<^verbatim>\<open>geometry\<close> are mappings where present, \<^verbatim>\<open>coordinates\<close>, where present, has positions 0,
  1 and 2, and \<^verbatim>\<open>time\<close>, where present, is not a list or a mapping), the normalizer
  returns one row per feature without raising, and every missing key degrades to an
  absent value: a missing property gives \<^verbatim>\<open>None\<close>, a missing \<^verbatim>\<open>time\<close> the absent time,
  missing \<^verbatim>\<open>geometry\<close> or \<^verbatim>\<open>coordinates\<close> three \<^verbatim>\<open>None\<close>s. Nothing is said of a
  \<^verbatim>\<open>properties\<close>, \<^verbatim>\<open>geometry\<close> or \<^verbatim>\<open>coordinates\<close> that is present with another shape.
\<close>

theorem normalize_total_when_only_keys_missing:
  assumes "map_of kvs ''features'' = Some (JArr fs)"
    and "list_all plain_feature fs"
  shows "\<exists>df. process_earthquake_data (JObj kvs) = Inr df
            \<and> length (rows df) = length fs
            \<and> (\<forall>i<length fs.
                  (property_of (fs ! i) ''place'' = None \<longrightarrow>
                     map_of (rows df ! i) ''place'' = Some (Val JNull))
                \<and> (property_of (fs ! i) ''mag'' = None \<longrightarrow>
                     map_of (rows df ! i) ''magnitude'' = Some (Val JNull))
                \<and> (property_of (fs ! i) ''time'' = None \<longrightarrow>
                     map_of (rows df ! i) ''time'' = Some (Time NaT))
                \<and> (property_of (fs ! i) ''tsunami'' = None \<longrightarrow>
                     map_of (rows df ! i) ''tsunami_flag'' = Some (Val JNull))
                \<and> (property_of (fs ! i) ''felt'' = None \<longrightarrow>
                     map_of (rows df ! i) ''felt_reports'' = Some (Val JNull))
                \<and> (coordinates_of (fs ! i) = None \<longrightarrow>
                     map_of (rows df ! i) ''longitude'' = Some (Val JNull)
                   \<and> map_of (rows df ! i) ''latitude'' = Some (Val JNull)
                   \<and> map_of (rows df ! i) ''depth_km'' = Some (Val JNull)))"
proof -
  from assms(2) have wf: "list_all wf_feature fs"
    by (simp add: list_all_iff plain_feature_def)
  from process_rows_described[OF assms(1) wf] obtain df
    where df: "process_earthquake_data (JObj kvs) = Inr df"
      and len: "length (rows df) = length fs"
      and row: "\<And>i. i < length fs \<Longrightarrow> feature_record (fs ! i) = Inr (rows df ! i)"
    by blast
  have "(property_of (fs ! i) ''place'' = None \<longrightarrow>
           map_of (rows df ! i) ''place'' = Some (Val JNull))
      \<and> (property_of (fs ! i) ''mag'' = None \<longrightarrow>
           map_of (rows df ! i) ''magnitude'' = Some (Val JNull))
      \<and> (property_of (fs ! i) ''time'' = None \<longrightarrow>
           map_of (rows df ! i) ''time'' = Some (Time NaT))
      \<and> (property_of (fs ! i) ''tsunami'' = None \<longrightarrow>
           map_of (rows df ! i) ''tsunami_flag'' = Some (Val JNull))
      \<and> (property_of (fs ! i) ''felt'' = None \<longrightarrow>
           map_of (rows df ! i) ''felt_reports'' = Some (Val JNull))
      \<and> (coordinates_of (fs ! i) = None \<longrightarrow>
           map_of (rows df ! i) ''longitude'' = Some (Val JNull)
         \<and> map_of (rows df ! i) ''latitude'' = Some (Val JNull)
         \<and> map_of (rows df ! i) ''depth_km'' = Some (Val JNull))"
    if i: "i < length fs" for i
  proof -
    from row[OF i] obtain fk pk gk x0 x1 x2 where f: "fs ! i = JObj fk"
      and p: "dict_get fk ''properties'' (JObj []) = JObj pk"
      and g: "dict_get fk ''geometry'' (JObj []) = JObj gk"
      and x: "py_getitem (dict_get gk ''coordinates'' (JArr [JNull, JNull, JNull])) 0 = Inr x0"
             "py_getitem (dict_get gk ''coordinates'' (JArr [JNull, JNull, JNull])) 1 = Inr x1"
             "py_getitem (dict_get gk ''coordinates'' (JArr [JNull, JNull, JNull])) 2 = Inr x2"
      and r: "rows df ! i = [(''place'', Val (dict_get pk ''place'' JNull)),
                (''magnitude'', Val (dict_get pk ''mag'' JNull)),
                (''time'', Time (to_datetime (dict_get pk ''time'' JNull))),
                (''longitude'', Val x0),
                (''latitude'', Val x1),
                (''depth_km'', Val x2),
                (''tsunami_flag'', Val (dict_get pk ''tsunami'' JNull)),
                (''felt_reports'', Val (dict_get pk ''felt'' JNull))]"
      by (rule feature_record_fields)
    have po: "property_of (fs ! i) key = map_of pk key" for key
      unfolding f by (rule property_of_dict_get[OF p])
    have co: "coordinates_of (fs ! i) = map_of gk ''coordinates''"
      unfolding f by (rule coordinates_of_dict_get[OF g])
    have c: "map_of gk ''coordinates'' = None \<Longrightarrow> x0 = JNull \<and> x1 = JNull \<and> x2 = JNull"
      using x by (simp add: dict_get_def)
    show ?thesis unfolding po co r using c by (simp add: dict_get_def)
  qed
  with df len show ?thesis by blast
qed

theorem normalize_total_when_only_keys_missing_witness:
  "(\<exists>df. process_earthquake_data (JObj [(''features'', JArr [])]) = Inr df \<and> rows df = [])
   \<and> (\<exists>df. process_earthquake_data
              (JObj [(''features'',
                      JArr [JObj [],
                            JObj [(''properties'', JObj [(''mag'', JFloat 4.5)]),
                                  (''geometry'', JObj [])]])]) = Inr df
          \<and> length (rows df) = 2
          \<and> map_of (rows df ! 0) ''place'' = Some (Val JNull)
          \<and> map_of (rows df ! 0) ''time'' = Some (Time NaT)
          \<and> map_of (rows df ! 0) ''longitude'' = Some (Val JNull)
          \<and> map_of (rows df ! 1) ''place'' = Some (Val JNull)
          \<and> map_of (rows df ! 1) ''latitude'' = Some (Val JNull)
          \<and> map_of (rows df ! 1) ''depth_km'' = Some (Val JNull))"
proof (rule conjI)
  have "list_all plain_feature []" by simp
  from normalize_total_when_only_keys_missing[OF _ this, of "[(''features'', JArr [])]"]
  show "\<exists>df. process_earthquake_data (JObj [(''features'', JArr [])]) = Inr df \<and> rows df = []"
    by simp
next
  let ?fs = "[JObj [],
              JObj [(''properties'', JObj [(''mag'', JFloat 4.5)]), (''geometry'', JObj [])]]"
  have h1: "map_of [(''features'', JArr ?fs)] ''features'' = Some (JArr ?fs)" by simp
  have h2: "list_all plain_feature ?fs" by (simp add: plain_feature_def dict_get_def)
  from normalize_total_when_only_keys_missing[OF h1 h2] obtain df
    where df: "process_earthquake_data (JObj [(''features'', JArr ?fs)]) = Inr df"
      and len: "length (rows df) = length ?fs"
      and all: "\<forall>i<length ?fs.
                  (property_of (?fs ! i) ''place'' = None \<longrightarrow>
                     map_of (rows df ! i) ''place'' = Some (Val JNull))
                \<and> (property_of (?fs ! i) ''mag'' = None \<longrightarrow>
                     map_of (rows df ! i) ''magnitude'' = Some (Val JNull))
                \<and> (property_of (?fs ! i) ''time'' = None \<longrightarrow>
                     map_of (rows df ! i) ''time'' = Some (Time NaT))
                \<and> (property_of (?fs ! i) ''tsunami'' = None \<longrightarrow>
                     map_of (rows df ! i) ''tsunami_flag'' = Some (Val JNull))
                \<and> (property_of (?fs ! i) ''felt'' = None \<longrightarrow>
                     map_of (rows df ! i) ''felt_reports'' = Some (Val JNull))
                \<and> (coordinates_of (?fs ! i) = None \<longrightarrow>
                     map_of (rows df ! i) ''longitude'' = Some (Val JNull)
                   \<and> map_of (rows df ! i) ''latitude'' = Some (Val JNull)
                   \<and> map_of (rows df ! i) ''depth_km'' = Some (Val JNull))"
    by blast
  from all have r0: "map_of (rows df ! 0) ''place'' = Some (Val JNull)
                   \<and> map_of (rows df ! 0) ''time'' = Some (Time NaT)
                   \<and> map_of (rows df ! 0) ''longitude'' = Some (Val JNull)"
    by (auto dest!: spec[of _ 0])
  from all have r1: "map_of (rows df ! 1) ''place'' = Some (Val JNull)
                   \<and> map_of (rows df ! 1) ''latitude'' = Some (Val JNull)
                   \<and> map_of (rows df ! 1) ''depth_km'' = Some (Val JNull)"
    by (auto dest!: spec[of _ 1])
  from df len r0 r1 show "\<exists>df. process_earthquake_data (JObj [(''features'', JArr ?fs)]) = Inr df
          \<and> length (rows df) = 2
          \<and> map_of (rows df ! 0) ''place'' = Some (Val JNull)
          \<and> map_of (rows df ! 0) ''time'' = Some (Time NaT)
          \<and> map_of (rows df ! 0) ''longitude'' = Some (Val JNull)
          \<and> map_of (rows df ! 1) ''place'' = Some (Val JNull)
          \<and> map_of (rows df ! 1) ''latitude'' = Some (Val JNull)
          \<and> map_of (rows df ! 1) ''depth_km'' = Some (Val JNull)"
    by auto
qed




lemma process_loop_cong:
  "map feature_record fs = map feature_record gs \<Longrightarrow> process_loop fs acc = process_loop gs acc"
proof (induction fs arbitrary: gs acc)
  case Nil
  then show ?case by simp
next
  case (Cons f fs)
  from Cons.prems obtain g gs' where gs: "gs = g # gs'"
    and fg: "feature_record f = feature_record g"
    and m: "map feature_record fs = map feature_record gs'"
    by (cases gs) auto
  from Cons.IH[OF m] have "\<And>acc. process_loop fs acc = process_loop gs' acc" .
  with fg gs show ?case by simp
qed

lemma process_features_replaced:
  assumes "map_of kvs ''features'' = Some (JArr fs)"
    and "i < length fs"
    and "feature_record f = feature_record (fs ! i)"
  shows "process_earthquake_data (JObj ((''features'', JArr (fs[i := f])) # kvs))
           = process_earthquake_data (JObj kvs)"
proof -
  have k: "map_of ((''features'', JArr (fs[i := f])) # kvs) ''features'' = Some (JArr (fs[i := f]))"
    by simp
  from assms(2) have ne: "fs \<noteq> []" "fs[i := f] \<noteq> []" by auto
  have "map feature_record (fs[i := f]) = (map feature_record fs)[i := feature_record (fs ! i)]"
    by (simp add: map_update assms(3))
  also from assms(2) have "\<dots> = map feature_record fs"
    by (metis list_update_id nth_map)
  finally have "process_loop (fs[i := f]) [] = process_loop fs []"
    by (rule process_loop_cong)
  with ne show ?thesis
    unfolding process_JObj_features_list[OF k] process_JObj_features_list[OF assms(1)]
    by simp
qed

lemma feature_record_long_coordinates:
  assumes "map_of kvs ''geometry'' = Some (JObj gk)"
    and "map_of gk ''coordinates'' = Some (JArr cs)"
    and "3 \<le> length cs"
    and "is_dict (dict_get kvs ''properties'' (JObj []))"
  shows "\<exists>r. feature_record (JObj kvs) = Inr r
            \<and> map_of r ''longitude'' = Some (Val (cs ! 0))
            \<and> map_of r ''latitude'' = Some (Val (cs ! 1))
            \<and> map_of r ''depth_km'' = Some (Val (cs ! 2))
            \<and> feature_record
                 (JObj ((''geometry'', JObj [(''coordinates'', JArr (take 3 cs))]) # kvs)) = Inr r"
proof -
  from assms(4) obtain pk where p: "dict_get kvs ''properties'' (JObj []) = JObj pk"
    by (auto simp: is_dict_conv)
  from assms(1) have g: "dict_get kvs ''geometry'' (JObj []) = JObj gk"
    by (simp add: dict_get_def)
  from assms(2) have c: "dict_get gk ''coordinates'' (JArr [JNull, JNull, JNull]) = JArr cs"
    by (simp add: dict_get_def)
  let ?kvs' = "(''geometry'', JObj [(''coordinates'', JArr (take 3 cs))]) # kvs"
  from p have p': "dict_get ?kvs' ''properties'' (JObj []) = JObj pk"
    by (simp add: dict_get_def)
  have g': "dict_get ?kvs' ''geometry'' (JObj []) = JObj [(''coordinates'', JArr (take 3 cs))]"
    by (simp add: dict_get_def)
  have c': "dict_get [(''coordinates'', JArr (take 3 cs))] ''coordinates'' (JArr [JNull, JNull, JNull])
              = JArr (take 3 cs)"
    by (simp add: dict_get_def)
  from assms(3) have "cs \<noteq> []" by auto
  with assms(3) show ?thesis
    unfolding feature_record_dicts[OF p g] feature_record_dicts[OF p' g'] c c'
    by simp
qed

text \<open>
  Claim C9. In a batch of well-formed features, a feature whose \<^verbatim>\<open>geometry.coordinates\<close>
  is a list of three or more elements does not make the normalizer fail: the batch is
  normalized to one row per feature, the row of that feature has elements 0, 1 and 2 of
  the list as longitude, latitude and depth_km, and what follows the third element is
  ignored, the normalizer returning the very same table for the batch in which that
  feature's list is cut to its first three elements.
\<close>

theorem normalize_long_coordinates_first_three:
  assumes "map_of kvs ''features'' = Some (JArr fs)"
    and "list_all wf_feature fs"
    and "i < length fs"
    and "coordinates_of (fs ! i) = Some (JArr cs)"
    and "3 \<le> length cs"
  shows "\<exists>df. process_earthquake_data (JObj kvs) = Inr df
            \<and> length (rows df) = length fs
            \<and> map_of (rows df ! i) ''longitude'' = Some (Val (cs ! 0))
            \<and> map_of (rows df ! i) ''latitude'' = Some (Val (cs ! 1))
            \<and> map_of (rows df ! i) ''depth_km'' = Some (Val (cs ! 2))
            \<and> process_earthquake_data
                 (JObj ((''features'', JArr (fs[i := with_coordinates (fs ! i) (take 3 cs)])) # kvs))
               = Inr df"
proof -
  from process_rows_described[OF assms(1,2)] obtain df
    where df: "process_earthquake_data (JObj kvs) = Inr df"
      and len: "length (rows df) = length fs"
      and row: "\<And>i. i < length fs \<Longrightarrow> feature_record (fs ! i) = Inr (rows df ! i)"
    by blast
  from assms(2,3) have wf: "wf_feature (fs ! i)" by (simp add: list_all_length)
  then obtain fk where f: "fs ! i = JObj fk" by (cases "fs ! i") simp_all
  from assms(4) f obtain gk where g: "map_of fk ''geometry'' = Some (JObj gk)"
    and c: "map_of gk ''coordinates'' = Some (JArr cs)"
    by (auto split: option.splits json.splits)
  from wf f have p: "is_dict (dict_get fk ''properties'' (JObj []))" by simp
  from feature_record_long_coordinates[OF g c assms(5) p] obtain r
    where r: "feature_record (JObj fk) = Inr r"
      and lon: "map_of r ''longitude'' = Some (Val (cs ! 0))"
      and lat: "map_of r ''latitude'' = Some (Val (cs ! 1))"
      and dep: "map_of r ''depth_km'' = Some (Val (cs ! 2))"
      and cut: "feature_record
                  (JObj ((''geometry'', JObj [(''coordinates'', JArr (take 3 cs))]) # fk)) = Inr r"
    by blast
  from row[OF assms(3)] r f have ri: "rows df ! i = r" by simp
  from cut r f have "feature_record (with_coordinates (fs ! i) (take 3 cs)) = feature_record (fs ! i)"
    by simp
  from process_features_replaced[OF assms(1,3) this] df
  have "process_earthquake_data
          (JObj ((''features'', JArr (fs[i := with_coordinates (fs ! i) (take 3 cs)])) # kvs)) = Inr df"
    by simp
  with df len lon lat dep ri show ?thesis by blast
qed

theorem normalize_long_coordinates_first_three_witness:
  "\<exists>df. process_earthquake_data
          (JObj [(''features'',
                  JArr [JObj [(''properties'', JObj [(''place'', JStr ''Test'')])],
                        JObj [(''geometry'',
                               JObj [(''coordinates'',
                                      JArr [JFloat 1, JFloat 2, JFloat 3, JFloat 4, JStr ''x''])])]])])
        = Inr df
      \<and> length (rows df) = 2
      \<and> map_of (rows df ! 1) ''longitude'' = Some (Val (JFloat 1))
      \<and> map_of (rows df ! 1) ''latitude'' = Some (Val (JFloat 2))
      \<and> map_of (rows df ! 1) ''depth_km'' = Some (Val (JFloat 3))"
proof -
  let ?cs = "[JFloat 1, JFloat 2, JFloat 3, JFloat 4, JStr ''x'']"
  let ?fs = "[JObj [(''properties'', JObj [(''place'', JStr ''Test'')])],
              JObj [(''geometry'', JObj [(''coordinates'', JArr ?cs)])]]"
  have h1: "map_of [(''features'', JArr ?fs)] ''features'' = Some (JArr ?fs)" by simp
  have h2: "list_all wf_feature ?fs" by (simp add: dict_get_def)
  have h3: "1 < length ?fs" by simp
  have h4: "coordinates_of (?fs ! 1) = Some (JArr ?cs)" by simp
  have h5: "3 \<le> length ?cs" by simp
  from normalize_long_coordinates_first_three[OF h1 h2 h3 h4 h5] show ?thesis by auto
qed

text \<open>
  Claim C7. In a batch of well-formed features, the \<^verbatim>\<open>time\<close> cell of each row is the
  timestamp of the feature's \<^verbatim>\<open>properties.time\<close> when that is a number of epoch
  milliseconds, and the absent time when it is missing or not a number; the batch is
  normalized to one row per feature in either case.
\<close>

theorem time_coerced_per_feature:
  assumes "map_of kvs ''features'' = Some (JArr fs)"
    and "list_all wf_feature fs"
  shows "\<exists>df. process_earthquake_data (JObj kvs) = Inr df
            \<and> length (rows df) = length fs
            \<and> (\<forall>i<length fs.
                  map_of (rows df ! i) ''time'' =
                    Some (Time (case time_of (fs ! i) of
                                  Some (JInt n) \<Rightarrow> Timestamp (of_int n)
                                | Some (JFloat x) \<Rightarrow> Timestamp x
                                | _ \<Rightarrow> NaT)))"
proof -
  from process_features_rows[OF assms] obtain df
    where df: "process_earthquake_data (JObj kvs) = Inr df"
      and len: "length (rows df) = length fs"
      and m: "map Inr (rows df) = map feature_record fs"
    by blast
  have "map_of (rows df ! i) ''time'' =
          Some (Time (case time_of (fs ! i) of
                        Some (JInt n) \<Rightarrow> Timestamp (of_int n)
                      | Some (JFloat x) \<Rightarrow> Timestamp x
                      | _ \<Rightarrow> NaT))" if i: "i < length fs" for i
  proof -
    from m i len have "feature_record (fs ! i) = Inr (rows df ! i)"
      by (metis nth_map)
    then obtain fk pk where f: "fs ! i = JObj fk"
      and p: "dict_get fk ''properties'' (JObj []) = JObj pk"
      and t: "map_of (rows df ! i) ''time'' = Some (Time (to_datetime (dict_get pk ''time'' JNull)))"
      by (rule feature_record_fields) simp
    have tm: "time_of (fs ! i) = map_of pk ''time''"
      unfolding f by (rule time_of_dict_get[OF p])
    show ?thesis
    proof (cases "map_of pk ''time''")
      case None
      then show ?thesis by (simp add: t tm dict_get_def)
    next
      case (Some v)
      then show ?thesis by (cases v) (simp_all add: t tm dict_get_def)
    qed
  qed
  with df len show ?thesis by blast
qed

theorem time_coerced_per_feature_witness:
  "\<exists>df. process_earthquake_data
          (JObj [(''features'',
                  JArr [JObj [(''properties'', JObj [(''time'', JInt 1700000000000)])],
                        JObj [(''properties'', JObj [(''time'', JStr ''yesterday'')])],
                        JObj [(''properties'', JObj [(''place'', JStr ''Test'')])]])]) = Inr df
      \<and> length (rows df) = 3
      \<and> map_of (rows df ! 0) ''time'' = Some (Time (Timestamp 1700000000000))
      \<and> map_of (rows df ! 1) ''time'' = Some (Time NaT)
      \<and> map_of (rows df ! 2) ''time'' = Some (Time NaT)"
proof -
  let ?fs = "[JObj [(''properties'', JObj [(''time'', JInt 1700000000000)])],
              JObj [(''properties'', JObj [(''time'', JStr ''yesterday'')])],
              JObj [(''properties'', JObj [(''place'', JStr ''Test'')])]]"
  have h1: "map_of [(''features'', JArr ?fs)] ''features'' = Some (JArr ?fs)" by simp
  have h2: "list_all wf_feature ?fs" by (simp add: dict_get_def)
  from time_coerced_per_feature[OF h1 h2] obtain df
    where df: "process_earthquake_data (JObj [(''features'', JArr ?fs)]) = Inr df"
      and len: "length (rows df) = length ?fs"
      and t: "\<forall>i<length ?fs.
                  map_of (rows df ! i) ''time'' =
                    Some (Time (case time_of (?fs ! i) of
                                  Some (JInt n) \<Rightarrow> Timestamp (of_int n)
                                | Some (JFloat x) \<Rightarrow> Timestamp x
                                | _ \<Rightarrow> NaT))"
    by blast
  from t have "map_of (rows df ! 0) ''time'' = Some (Time (Timestamp 1700000000000))"
    by (auto dest!: spec[of _ 0])
  moreover from t have "map_of (rows df ! 1) ''time'' = Some (Time NaT)"
    by (auto dest!: spec[of _ 1])
  moreover from t have "map_of (rows df ! 2) ''time'' = Some (Time NaT)"
    by (auto dest!: spec[of _ 2])
  ultimately show ?thesis using df len by auto
qed

section \<open>Claims about the fetcher\<close>

lemma fetch_unfold:
  "fetch_earthquake_data net m l w =
     (case fetch_try (net (fetch_request m l)) of
        Inr data \<Rightarrow> (data, w\<lparr>requests_sent := requests_sent w @ [fetch_request m l]\<rparr>)
      | Inl e \<Rightarrow>
          (JObj [(''features'', JArr [])],
           w\<lparr>requests_sent := requests_sent w @ [fetch_request m l],
             diagnostics := diagnostics w @ [diagnostic (kind_of_exn e) (exn_str e)]\<rparr>))"
  by (cases "fetch_try (net (fetch_request m l))")
     (simp_all add: fetch_earthquake_data_def requests_get_def st_error_def kind_of_exn_def)

lemma py_in_has_features_key:
  "has_features_key data \<Longrightarrow> py_in ''features'' data = Inr True"
  by (cases data) simp_all

lemma py_in_raises_unknown:
  "py_in ''features'' data = Inl e \<Longrightarrow> kind_of_exn e = UnknownError"
  by (cases data) (auto simp: kind_of_exn_def)

lemma fetch_try_Inl_classify:
  assumes "fetch_try got = Inl e"
  shows "\<exists>k d. classify got = Some k
            \<and> \<not> (k = UnexpectedStructureError \<and> membership_only got)
            \<and> diagnostic (kind_of_exn e) (exn_str e) = diagnostic k d"
proof (cases got)
  case (Inl e')
  with assms show ?thesis by (auto simp: fetch_try_def classify_def membership_only_def)
next
  case (Inr response)
  show ?thesis
  proof (cases "resp_raise_for_status response")
    case (Some msg)
    with assms Inr have "classify got = Some HttpStatusError"
      and "diagnostic (kind_of_exn e) (exn_str e) = diagnostic HttpStatusError msg"
      by (auto simp: fetch_try_def classify_def kind_of_exn_def)
    then show ?thesis by blast
  next
    case None
    show ?thesis
    proof (cases "strip (resp_text response) = []")
      case True
      with assms Inr None have "classify got = Some EmptyResponseError"
        and "diagnostic (kind_of_exn e) (exn_str e) = diagnostic EmptyResponseError []"
        by (auto simp: fetch_try_def classify_def kind_of_exn_def)
      then show ?thesis by blast
    next
      case False
      show ?thesis
      proof (cases "resp_json response")
        case (Inl e')
        with assms Inr None False have "classify got = Some (kind_of_exn e)"
          and "\<not> membership_only got"
          by (auto simp: fetch_try_def classify_def membership_only_def)
        then show ?thesis by blast
      next
        case data: (Inr data)
        from assms Inr None False data
        have t: "and_then (py_in ''features'' data)
                   (\<lambda>present. if \<not> present
                               then Inl (Exn ValueError ''Unexpected API response structure'')
                               else Inr data) = Inl e"
          by (simp add: fetch_try_def)
        have nk: "\<not> has_features_key data"
        proof
          assume "has_features_key data"
          from py_in_has_features_key[OF this] t show False by simp
        qed
        with Inr None False data have c: "classify got = Some UnexpectedStructureError"
          by (simp add: classify_def)
        show ?thesis
        proof (cases "py_in ''features'' data")
          case (Inl e')
          with t have ee: "e' = e" by simp
          from py_in_raises_unknown[OF Inl] ee have "kind_of_exn e = UnknownError" by simp
          then have "diagnostic (kind_of_exn e) (exn_str e)
                       = diagnostic UnexpectedStructureError (exn_str e)" by simp
          moreover from Inr data Inl have "\<not> membership_only got"
            by (simp add: membership_only_def)
          ultimately show ?thesis using c by blast
        next
          case present: (Inr present)
          with t have np: "\<not> present"
            and e: "e = Exn ValueError ''Unexpected API response structure''"
            by (auto split: if_splits)
          from e have "diagnostic (kind_of_exn e) (exn_str e)
                         = diagnostic UnexpectedStructureError (exn_str e)"
            by (simp add: kind_of_exn_def)
          moreover from Inr data present np have "\<not> membership_only got"
            by (simp add: membership_only_def)
          ultimately show ?thesis using c by blast
        qed
      qed
    qed
  qed
qed

lemma fetch_try_Inr_checked:
  assumes "fetch_try got = Inr data"
  shows "py_in ''features'' data = Inr True"
  using assms
  by (auto simp: fetch_try_def and_then_def split: sum.splits option.splits if_splits)

lemma fetch_try_Inr_classify:
  assumes "fetch_try got = Inr data"
  shows "classify got = None
       \<or> (classify got = Some UnexpectedStructureError \<and> membership_only got)"
proof -
  from assms obtain response where got: "got = Inr response"
    and s: "resp_raise_for_status response = None"
    and t: "strip (resp_text response) \<noteq> []"
    and j: "resp_json response = Inr data"
    and p: "py_in ''features'' data = Inr True"
    by (auto simp: fetch_try_def and_then_def split: sum.splits option.splits if_splits)
  then show ?thesis by (simp add: classify_def membership_only_def)
qed

text \<open>
  Outside the bodies that pass the test of line 45 without holding the top-level key, the
  fetcher does what the specification asks of the diagnostics: none when every validation
  step succeeds, and on a failure the canonical empty payload with exactly one
  diagnostic, the message of the failure's kind, added to those already shown.
\<close>

lemma fetch_diagnostics_by_kind:
  "(case classify (net (fetch_request min_magnitude limit)) of
      None \<Rightarrow>
        diagnostics (snd (fetch_earthquake_data net min_magnitude limit w)) = diagnostics w
    | Some kind \<Rightarrow>
        if kind = UnexpectedStructureError \<and> membership_only (net (fetch_request min_magnitude limit))
        then diagnostics (snd (fetch_earthquake_data net min_magnitude limit w)) = diagnostics w
        else fst (fetch_earthquake_data net min_magnitude limit w) = JObj [(''features'', JArr [])]
           \<and> (\<exists>detail. diagnostics (snd (fetch_earthquake_data net min_magnitude limit w))
                          = diagnostics w @ [diagnostic kind detail]))"
proof (cases "fetch_try (net (fetch_request min_magnitude limit))")
  case (Inl e)
  from fetch_try_Inl_classify[OF Inl] obtain k d
    where k: "classify (net (fetch_request min_magnitude limit)) = Some k"
      and n: "\<not> (k = UnexpectedStructureError \<and> membership_only (net (fetch_request min_magnitude limit)))"
      and d: "diagnostic (kind_of_exn e) (exn_str e) = diagnostic k d"
    by blast
  have "fst (fetch_earthquake_data net min_magnitude limit w) = JObj [(''features'', JArr [])]"
    using Inl by (simp add: fetch_unfold)
  moreover have "diagnostics (snd (fetch_earthquake_data net min_magnitude limit w))
                   = diagnostics w @ [diagnostic k d]"
    using Inl d by (simp add: fetch_unfold)
  ultimately show ?thesis using k n by auto
next
  case (Inr data)
  have "diagnostics (snd (fetch_earthquake_data net min_magnitude limit w)) = diagnostics w"
    using Inr by (simp add: fetch_unfold)
  with fetch_try_Inr_classify[OF Inr] show ?thesis by auto
qed

lemma fetch_payload_passes_membership_test:
  "py_in ''features'' (fst (fetch_earthquake_data net m l w)) = Inr True"
proof (cases "fetch_try (net (fetch_request m l))")
  case (Inl e)
  then show ?thesis by (simp add: fetch_unfold)
next
  case (Inr data)
  with fetch_try_Inr_checked[OF Inr] show ?thesis by (simp add: fetch_unfold)
qed

text \<open>
  Claim C1 asks that every payload the fetcher returns be a mapping with the top-level
  key \<^verbatim>\<open>features\<close>. Line 45 tests \<^verbatim>\<open>"features" not in data\<close>, which a JSON array holding
  the string \<^verbatim>\<open>"features"\<close> passes as well: for the body \<^verbatim>\<open>["features"]\<close>, sent with a
  success status, the fetcher returns the list itself, with no diagnostic, and the
  normalizer then raises \<^verbatim>\<open>TypeError\<close> at \<^verbatim>\<open>data["features"]\<close>.
\<close>

theorem fetch_returns_payload_without_key:
  "valid_filter 2.5 100
   \<and> fetch_earthquake_data
        (\<lambda>req. Inr \<lparr>resp_raise_for_status = None,
                      resp_text = codepoints (CHR 0x5B # CHR 0x22 # ''features'' @ [CHR 0x22, CHR 0x5D]),
                      resp_json = Inr (JArr [JStr ''features''])\<rparr>)
        2.5 100 \<lparr>requests_sent = [], diagnostics = []\<rparr>
     = (JArr [JStr ''features''],
        \<lparr>requests_sent = [fetch_request 2.5 100], diagnostics = []\<rparr>)
   \<and> \<not> has_features_key (JArr [JStr ''features''])
   \<and> process_earthquake_data (JArr [JStr ''features''])
     = Inl (Exn TypeError ''list indices must be integers or slices, not str'')"
  by (simp add: valid_filter_def fetch_unfold fetch_try_def strip_def py_isspace_def
                codepoints_def process_earthquake_data_def)

text \<open>
  Claim C6 asks, on every validation failure, for exactly one diagnostic and the
  canonical empty payload. The body \<^verbatim>\<open>["features"]\<close>, sent with a success status, fails
  the last validation step, the parsed body being a list and not a mapping with the
  top-level key \<^verbatim>\<open>features\<close>; the test of line 45, \<^verbatim>\<open>"features" not in data\<close>, lets it
  through all the same, so that the fetcher shows no diagnostic at all and returns the
  list in place of the canonical empty payload.
\<close>

theorem fetch_silent_on_unexpected_structure:
  "classify (Inr \<lparr>resp_raise_for_status = None,
                   resp_text = codepoints (CHR 0x5B # CHR 0x22 # ''features'' @ [CHR 0x22, CHR 0x5D]),
                   resp_json = Inr (JArr [JStr ''features''])\<rparr>)
     = Some UnexpectedStructureError
   \<and> diagnostics (snd (fetch_earthquake_data
        (\<lambda>req. Inr \<lparr>resp_raise_for_status = None,
                      resp_text = codepoints (CHR 0x5B # CHR 0x22 # ''features'' @ [CHR 0x22, CHR 0x5D]),
                      resp_json = Inr (JArr [JStr ''features''])\<rparr>)
        2.5 100 \<lparr>requests_sent = [], diagnostics = [''shown before'']\<rparr>))
     = [''shown before'']
   \<and> fst (fetch_earthquake_data
        (\<lambda>req. Inr \<lparr>resp_raise_for_status = None,
                      resp_text = codepoints (CHR 0x5B # CHR 0x22 # ''features'' @ [CHR 0x22, CHR 0x5D]),
                      resp_json = Inr (JArr [JStr ''features''])\<rparr>)
        2.5 100 \<lparr>requests_sent = [], diagnostics = [''shown before'']\<rparr>)
     = JArr [JStr ''features'']
   \<and> JArr [JStr ''features''] \<noteq> empty_payload"
  by (simp add: classify_def fetch_unfold fetch_try_def strip_def py_isspace_def
                codepoints_def empty_payload_def)

text \<open>
  Claim C8. Every call sends exactly one request, a GET to the fixed catalog endpoint
  with \<^verbatim>\<open>format=geojson\<close>, \<^verbatim>\<open>orderby=time\<close>, \<^verbatim>\<open>minmagnitude\<close> and \<^verbatim>\<open>limit\<close> from the
  filter and a timeout of 10, whether the request then succeeds or fails: nothing is
  sent a second time.
\<close>

theorem fetch_sends_one_request:
  "requests_sent (snd (fetch_earthquake_data net min_magnitude limit w)) =
     requests_sent w @
       [\<lparr>req_method = ''GET'',
         req_url = ''https://earthquake.usgs.gov/fdsnws/event/1/query'',
         req_params = [(''format'', PStr ''geojson''),
                       (''orderby'', PStr ''time''),
                       (''minmagnitude'', PFloat min_magnitude),
                       (''limit'', PInt limit)],
         req_timeout = 10\<rparr>]"
  by (cases "fetch_try (net (fetch_request min_magnitude limit))")
     (simp_all add: fetch_unfold fetch_request_def)

section \<open>What the normalizer writes\<close>

lemma keepsI:
  assumes "\<And>h r h'. m h = (r, h') \<Longrightarrow> n \<le> length h \<Longrightarrow> length h \<le> length h' \<and> take n h' = take n h"
  shows "keeps n m"
  using assms unfolding keeps_def by blast

lemma keepsD:
  assumes "keeps n m" and "m h = (r, h')" and "n \<le> length h"
  shows "length h \<le> length h'" and "take n h' = take n h"
  using assms unfolding keeps_def by blast+

lemma keeps_read: "keeps n (h_read r)"
  by (rule keepsI) (auto simp: h_read_def)

lemma keeps_new: "keeps n (h_new ob)"
  by (rule keepsI) (auto simp: h_new_def alloc_def)

lemma keeps_get_fresh: "keeps n (h_get_fresh v key dflt)"
  by (rule keepsI) (auto simp: h_get_fresh_def alloc_def split: option.splits pobj.splits)

lemma keeps_then:
  assumes "keeps n m" and "\<And>v. keeps n (f v)"
  shows "keeps n (h_then m f)"
proof (rule keepsI)
  fix h r h'
  assume run: "h_then m f h = (r, h')" and n: "n \<le> length h"
  obtain r1 h1 where m: "m h = (r1, h1)" by (cases "m h")
  from keepsD[OF assms(1) m n] have l1: "length h \<le> length h1" and t1: "take n h1 = take n h" .
  show "length h \<le> length h' \<and> take n h' = take n h"
  proof (cases r1)
    case (Inl e)
    with run m l1 t1 show ?thesis by (simp add: h_then_def)
  next
    case (Inr v)
    with run m have f: "f v h1 = (r, h')" by (simp add: h_then_def)
    from n l1 have "n \<le> length h1" by simp
    from keepsD[OF assms(2) f this] l1 t1 show ?thesis by simp
  qed
qed

lemma keeps_feature_record: "keeps n (h_feature_record feature)"
  unfolding h_feature_record_def
  by (intro keeps_then keeps_get_fresh keeps_read keeps_new)

lemma h_append_length [simp]: "length (h_append records row h) = length h"
  by (auto simp: h_append_def split: pval.splits option.splits pobj.splits)

lemma h_append_take:
  assumes "records = VRef a" and "n \<le> a"
  shows "take n (h_append records row h) = take n h"
  using assms by (auto simp: h_append_def split: option.splits pobj.splits)

lemma keeps_process_loop:
  assumes "n \<le> a"
  shows "keeps n (h_process_loop items (VRef a))"
proof (induction items)
  case Nil
  show ?case by (rule keepsI) simp
next
  case (Cons feature rest)
  show ?case
  proof (rule keepsI)
    fix h r h'
    assume run: "h_process_loop (feature # rest) (VRef a) h = (r, h')" and n: "n \<le> length h"
    obtain r1 h1 where m: "h_feature_record feature h = (r1, h1)"
      by (cases "h_feature_record feature h")
    from keepsD[OF keeps_feature_record m n]
    have l1: "length h \<le> length h1" and t1: "take n h1 = take n h" .
    show "length h \<le> length h' \<and> take n h' = take n h"
    proof (cases r1)
      case (Inl e)
      with run m l1 t1 show ?thesis by simp
    next
      case (Inr row)
      with run m have rest: "h_process_loop rest (VRef a) (h_append (VRef a) row h1) = (r, h')"
        by simp
      from n l1 have "n \<le> length (h_append (VRef a) row h1)" by simp
      from keepsD[OF Cons.IH rest this] l1 t1 h_append_take[OF refl assms, of row h1]
      show ?thesis by simp
    qed
  qed
qed

lemma keeps_DataFrame_columns: "keeps n h_DataFrame_columns"
  by (rule keepsI) (auto simp: h_DataFrame_columns_def alloc_def)

lemma keeps_process: "keeps (length h0) (h_process_earthquake_data data)"
proof (rule keepsI)
  fix h r h'
  assume run: "h_process_earthquake_data data h = (r, h')" and n: "length h0 \<le> length h"
  note cols = keepsD[OF keeps_DataFrame_columns _ n]
  show "length h \<le> length h' \<and> take (length h0) h' = take (length h0) h"
  proof (cases "h_truthy h data")
    case False
    with run have "h_DataFrame_columns h = (r, h')" by (simp add: h_process_earthquake_data_def)
    from cols[OF this] show ?thesis by simp
  next
    case True
    show ?thesis
    proof (cases "h_in ''features'' data h")
      case (Inl e)
      with run True show ?thesis by (simp add: h_process_earthquake_data_def)
    next
      case present: (Inr present)
      show ?thesis
      proof (cases present)
        case False
        with run True present have "h_DataFrame_columns h = (r, h')"
          by (simp add: h_process_earthquake_data_def)
        from cols[OF this] show ?thesis by simp
      next
        case pres: True
        show ?thesis
        proof (cases "h_getitem_key data ''features'' h")
          case (Inl e)
          with run True present pres show ?thesis by (simp add: h_process_earthquake_data_def)
        next
          case features: (Inr features)
          show ?thesis
          proof (cases "h_len features h")
            case (Inl e)
            with run True present pres features show ?thesis
              by (simp add: h_process_earthquake_data_def)
          next
            case len: (Inr k)
            show ?thesis
            proof (cases "k = 0")
              case k0: True
              with run True present pres features len have "h_DataFrame_columns h = (r, h')"
                by (simp add: h_process_earthquake_data_def)
              from cols[OF this] show ?thesis by simp
            next
              case k1: False
              let ?h1 = "h @ [OList []]"
              show ?thesis
              proof (cases "h_iter features ?h1")
                case (Inl e)
                with run True present pres features len k1 n show ?thesis
                  by (auto simp: h_process_earthquake_data_def alloc_def)
              next
                case items: (Inr items)
                obtain r2 h2 where loop: "h_process_loop items (VRef (length h)) ?h1 = (r2, h2)"
                  by (cases "h_process_loop items (VRef (length h)) ?h1")
                have n1: "length h0 \<le> length ?h1" using n by simp
                from keepsD[OF keeps_process_loop[OF n] loop n1]
                have l2: "length ?h1 \<le> length h2"
                  and t2: "take (length h0) h2 = take (length h0) ?h1" .
                from run True present pres features len k1 items loop have "h' = h2"
                  by (cases r2) (auto simp: h_process_earthquake_data_def alloc_def)
                with l2 t2 n show ?thesis by simp
              qed
            qed
          qed
        qed
      qed
    qed
  qed
qed

lemma process_never_writes_old_objects:
  assumes "h_process_earthquake_data data h = (r, h')"
  shows "length h \<le> length h'" and "take (length h) h' = h"
  using keepsD[OF keeps_process[of h data] assms] by simp_all

lemma h_then_Inr:
  assumes "h_then m f h = (Inr y, h')"
  obtains v h1 where "m h = (Inr v, h1)" and "f v h1 = (Inr y, h')"
proof -
  obtain r1 h1 where m: "m h = (r1, h1)" by (cases "m h")
  with assms obtain v where "r1 = Inr v" by (cases r1) (auto simp: h_then_def)
  with assms m that show thesis by (auto simp: h_then_def)
qed

lemma h_read_Inr:
  assumes "h_read r h = (Inr v, h')"
  shows "h' = h" and "r h = Inr v"
  using assms by (auto simp: h_read_def)

lemma passed_scalar: "\<not> is_ref v \<Longrightarrow> passed h0 v"
  by (simp add: passed_def)

lemma passed_held: "held_in h0 v \<Longrightarrow> passed h0 v"
  by (simp add: passed_def)

lemma held_in_nth: "a < length h \<Longrightarrow> v \<in> held (h ! a) \<Longrightarrow> held_in h v"
  unfolding held_in_def using nth_mem by blast

lemma closed_held_below:
  assumes "closed_store h" and "held_in h (VRef a)"
  shows "a < length h"
proof -
  from assms(2) obtain ob where ob: "ob \<in> set h" and v: "VRef a \<in> held ob"
    unfolding held_in_def by blast
  from assms(1) ob v have "points_below (length h) (VRef a)"
    unfolding closed_store_def by blast
  then show ?thesis by simp
qed

lemma look_take:
  assumes "take n h = h0" and "n = length h0" and "a < n"
  shows "look h (VRef a) = Some (h0 ! a)"
proof -
  from assms(1,2) have "length (take n h) = n" by simp
  then have n: "n \<le> length h" by simp
  from assms(1,3) have "h0 ! a = h ! a" by (metis nth_take)
  with n assms(3) show ?thesis by simp
qed

text \<open>What a usable value refers to: an object of the old store, or one holding no reference.\<close>

lemma usable_look:
  assumes u: "usable h0 h v" and c: "closed_store h0" and t: "take (length h0) h = h0"
    and l: "look h v = Some ob"
  shows "(\<forall>x \<in> held ob. passed h0 x)"
proof -
  from l obtain a where v: "v = VRef a" and a: "a < length h" and ob: "ob = h ! a"
    by (cases v) (auto split: if_splits)
  from u show ?thesis unfolding usable_def
  proof
    assume "passed h0 v"
    with v have "held_in h0 (VRef a)" by (simp add: passed_def)
    with c have a0: "a < length h0" by (rule closed_held_below)
    from look_take[OF t refl a0] l v have "ob = h0 ! a" by simp
    with a0 show ?thesis by (auto intro: passed_held held_in_nth)
  next
    assume "\<exists>a. v = VRef a \<and> a < length h \<and> (\<forall>x \<in> held (h ! a). \<not> is_ref x)"
    with v ob show ?thesis by (auto intro: passed_scalar)
  qed
qed

lemma map_of_held: "map_of kvs key = Some x \<Longrightarrow> x \<in> held (ODict kvs)"
  by (auto dest: map_of_SomeD intro: rev_image_eqI)

lemma usable_get:
  assumes "usable h0 h v" and "closed_store h0" and "take (length h0) h = h0"
    and "h_get v key h = Inr x"
  shows "passed h0 x"
proof -
  from assms(4) obtain kvs where l: "look h v = Some (ODict kvs)"
    and x: "x = (case map_of kvs key of None \<Rightarrow> VNone | Some y \<Rightarrow> y)"
    by (auto simp: h_get_def split: option.splits pobj.splits)
  from usable_look[OF assms(1-3) l] have all: "\<forall>y \<in> held (ODict kvs). passed h0 y" .
  show ?thesis
  proof (cases "map_of kvs key")
    case None
    with x show ?thesis by (simp add: passed_def)
  next
    case (Some y)
    with all x map_of_held[OF Some] show ?thesis by auto
  qed
qed

lemma usable_getitem:
  assumes "usable h0 h v" and "closed_store h0" and "take (length h0) h = h0"
    and "h_getitem v i h = Inr x"
  shows "passed h0 x"
proof (cases "look h v")
  case None
  with assms(4) show ?thesis
    by (auto simp: h_getitem_def passed_def split: pval.splits if_splits)
next
  case (Some ob)
  from usable_look[OF assms(1-3) Some] have all: "\<forall>y \<in> held ob. passed h0 y" .
  from assms(4) Some all show ?thesis
    by (cases ob) (auto simp: h_getitem_def split: if_splits)
qed

lemma usable_append:
  assumes "usable h0 h v"
  shows "usable h0 (h @ ex) v"
  using assms unfolding usable_def by (auto simp: nth_append)

lemma passed_usable: "passed h0 v \<Longrightarrow> usable h0 h v"
  by (simp add: usable_def)

lemma usable_get_fresh:
  assumes "usable h0 h v" and "closed_store h0" and "take (length h0) h = h0"
    and "h_get_fresh v key dflt h = (Inr x, h')"
    and "\<forall>y \<in> held dflt. \<not> is_ref y"
  shows "h' = h @ [dflt]" and "usable h0 h' x"
proof -
  from assms(4) obtain kvs where l: "look h v = Some (ODict kvs)"
    and x: "x = (case map_of kvs key of None \<Rightarrow> VRef (length h) | Some y \<Rightarrow> y)"
    and h': "h' = h @ [dflt]"
    by (auto simp: h_get_fresh_def alloc_def split: option.splits pobj.splits)
  from h' show "h' = h @ [dflt]" .
  from usable_look[OF assms(1-3) l] have all: "\<forall>y \<in> held (ODict kvs). passed h0 y" .
  show "usable h0 h' x"
  proof (cases "map_of kvs key")
    case None
    with x h' assms(5) show ?thesis by (auto simp: usable_def)
  next
    case (Some y)
    with all x map_of_held[OF Some] show ?thesis by (auto intro: passed_usable)
  qed
qed

lemma take_append_old:
  assumes "take n h = h0" and "n = length h0"
  shows "take n (h @ ex) = h0"
proof -
  from assms have "length (take n h) = n" by simp
  then have "n \<le> length h" by simp
  with assms(1) show ?thesis by simp
qed

lemma feature_record_row:
  assumes c: "closed_store h0" and t: "take (length h0) h = h0" and u: "usable h0 h feature"
    and run: "h_feature_record feature h = (Inr row, h')"
  shows "\<exists>ex kvs. h' = h @ ex @ [ODict kvs] \<and> row = VRef (length h + length ex)
                 \<and> (\<forall>x \<in> set (map snd kvs). passed h0 x)"
  using run unfolding h_feature_record_def
proof (elim h_then_Inr)
  fix properties h1 geometry h2 coordinates h3 place h4 mag h5 time h6
    longitude h7 latitude h8 depth_km h9 tsunami h10 felt h11
  assume s1: "h_get_fresh feature ''properties'' (ODict []) h = (Inr properties, h1)"
    and s2: "h_get_fresh feature ''geometry'' (ODict []) h1 = (Inr geometry, h2)"
    and s3: "h_get_fresh geometry ''coordinates'' (OList [VNone, VNone, VNone]) h2
               = (Inr coordinates, h3)"
    and s4: "h_read (h_get properties ''place'') h3 = (Inr place, h4)"
    and s5: "h_read (h_get properties ''mag'') h4 = (Inr mag, h5)"
    and s6: "h_read (h_get properties ''time'') h5 = (Inr time, h6)"
    and s7: "h_read (h_getitem coordinates 0) h6 = (Inr longitude, h7)"
    and s8: "h_read (h_getitem coordinates 1) h7 = (Inr latitude, h8)"
    and s9: "h_read (h_getitem coordinates 2) h8 = (Inr depth_km, h9)"
    and s10: "h_read (h_get properties ''tsunami'') h9 = (Inr tsunami, h10)"
    and s11: "h_read (h_get properties ''felt'') h10 = (Inr felt, h11)"
    and s12: "h_new (ODict [(''place'', place), (''magnitude'', mag),
                            (''time'', VTime (h_to_datetime time)),
                            (''longitude'', longitude), (''latitude'', latitude),
                            (''depth_km'', depth_km), (''tsunami_flag'', tsunami),
                            (''felt_reports'', felt)]) h11 = (Inr row, h')"
  have h1: "h1 = h @ [ODict []]" and up: "usable h0 h1 properties"
    using usable_get_fresh[OF u c t s1] by simp_all
  have t1: "take (length h0) h1 = h0" unfolding h1 by (rule take_append_old[OF t refl])
  have u1: "usable h0 h1 feature" unfolding h1 by (rule usable_append[OF u])
  have h2: "h2 = h1 @ [ODict []]" and ug: "usable h0 h2 geometry"
    using usable_get_fresh[OF u1 c t1 s2] by simp_all
  have t2: "take (length h0) h2 = h0" unfolding h2 by (rule take_append_old[OF t1 refl])
  have h3: "h3 = h2 @ [OList [VNone, VNone, VNone]]" and uc: "usable h0 h3 coordinates"
    using usable_get_fresh[OF ug c t2 s3] by simp_all
  have t3: "take (length h0) h3 = h0" unfolding h3 by (rule take_append_old[OF t2 refl])
  have "usable h0 (h1 @ [ODict [], OList [VNone, VNone, VNone]]) properties"
    by (rule usable_append[OF up])
  then have up3: "usable h0 h3 properties"
    unfolding h3 h2 by simp
  from s4 s5 s6 s7 s8 s9 s10 s11
  have same: "h4 = h3" "h5 = h3" "h6 = h3" "h7 = h3" "h8 = h3" "h9 = h3" "h10 = h3" "h11 = h3"
    by (auto simp: h_read_def)
  from s4 s5 s6 s7 s8 s9 s10 s11 same
  have g: "h_get properties ''place'' h3 = Inr place"
          "h_get properties ''mag'' h3 = Inr mag"
          "h_getitem coordinates 0 h3 = Inr longitude"
          "h_getitem coordinates 1 h3 = Inr latitude"
          "h_getitem coordinates 2 h3 = Inr depth_km"
          "h_get properties ''tsunami'' h3 = Inr tsunami"
          "h_get properties ''felt'' h3 = Inr felt"
    by (auto simp: h_read_def)
  have p: "passed h0 place" "passed h0 mag" "passed h0 tsunami" "passed h0 felt"
    using g by (auto intro: usable_get[OF up3 c t3])
  have q: "passed h0 longitude" "passed h0 latitude" "passed h0 depth_km"
    using g by (auto intro: usable_getitem[OF uc c t3])
  let ?kvs = "[(''place'', place), (''magnitude'', mag),
               (''time'', VTime (h_to_datetime time)),
               (''longitude'', longitude), (''latitude'', latitude),
               (''depth_km'', depth_km), (''tsunami_flag'', tsunami),
               (''felt_reports'', felt)]"
  from s12 same have row: "row = VRef (length h3)" and h': "h' = h3 @ [ODict ?kvs]"
    by (auto simp: h_new_def alloc_def)
  have "h' = h @ [ODict [], ODict [], OList [VNone, VNone, VNone]] @ [ODict ?kvs]"
    unfolding h' h3 h2 h1 by simp
  moreover have "row = VRef (length h + length [ODict [], ODict [], OList [VNone, VNone, VNone]])"
    unfolding row h3 h2 h1 by simp
  moreover have "\<forall>x \<in> set (map snd ?kvs). passed h0 x"
    using p q by (simp add: passed_def)
  ultimately show ?thesis by blast
qed

lemma usable_iter:
  assumes "usable h0 h v" and "closed_store h0" and "take (length h0) h = h0"
    and "h_iter v h = Inr items"
  shows "\<forall>f \<in> set items. passed h0 f"
proof (cases "look h v")
  case None
  with assms(4) show ?thesis
    by (auto simp: h_iter_def passed_def split: pval.splits)
next
  case (Some ob)
  from usable_look[OF assms(1-3) Some] have all: "\<forall>y \<in> held ob. passed h0 y" .
  from assms(4) Some all show ?thesis
    by (cases ob) (auto simp: h_iter_def passed_def)
qed

lemma process_loop_rows:
  assumes c: "closed_store h0"
  shows "take (length h0) h = h0 \<Longrightarrow> length h0 < length h \<Longrightarrow> h ! length h0 = OList rs \<Longrightarrow>
         rows_ok h0 h rs \<Longrightarrow> \<forall>f \<in> set items. passed h0 f \<Longrightarrow>
         h_process_loop items (VRef (length h0)) h = (Inr u, h') \<Longrightarrow>
         \<exists>rs'. length h0 < length h' \<and> h' ! length h0 = OList rs' \<and> rows_ok h0 h' rs'"
proof (induction items arbitrary: h rs)
  case Nil
  then show ?case by auto
next
  case (Cons feature rest)
  let ?n = "length h0"
  obtain r1 h1 where m: "h_feature_record feature h = (r1, h1)"
    by (cases "h_feature_record feature h")
  from Cons.prems(6) m obtain row where r1: "r1 = Inr row" by (cases r1) auto
  from Cons.prems(5) have "usable h0 h feature" by (simp add: passed_usable)
  from feature_record_row[OF c Cons.prems(1) this m[unfolded r1]] obtain ex kvs
    where h1: "h1 = h @ ex @ [ODict kvs]" and row: "row = VRef (length h + length ex)"
      and cells: "\<forall>x \<in> set (map snd kvs). passed h0 x"
    by blast
  from Cons.prems(2,3) have lk: "look h1 (VRef ?n) = Some (OList rs)"
    unfolding h1 by (simp add: nth_append)
  let ?h2 = "h1[?n := OList (rs @ [row])]"
  from lk have app: "h_append (VRef ?n) row h1 = ?h2" by (simp add: h_append_def)
  from Cons.prems(6) m r1 app
  have rest: "h_process_loop rest (VRef ?n) ?h2 = (Inr u, h')" by simp
  have t1: "take ?n h1 = h0" unfolding h1 by (rule take_append_old[OF Cons.prems(1) refl])
  have p1: "take ?n ?h2 = h0" using t1 by simp
  have p2: "?n < length ?h2" using Cons.prems(2) unfolding h1 by simp
  have p3: "?h2 ! ?n = OList (rs @ [row])" using Cons.prems(2) unfolding h1 by simp
  have p4: "rows_ok h0 ?h2 (rs @ [row])"
    unfolding rows_ok_def
  proof
    fix r assume "r \<in> set (rs @ [row])"
    then consider "r \<in> set rs" | "r = row" by auto
    then show "\<exists>a kvs. r = VRef a \<and> ?n < a \<and> a < length ?h2 \<and> ?h2 ! a = ODict kvs
                       \<and> (\<forall>c \<in> set (map snd kvs). passed h0 c)"
    proof cases
      case 1
      with Cons.prems(4) obtain a kvs' where a: "r = VRef a" "?n < a" "a < length h"
        and ob: "h ! a = ODict kvs'" and ok: "\<forall>c \<in> set (map snd kvs'). passed h0 c"
        unfolding rows_ok_def by blast
      from a ob have "?h2 ! a = ODict kvs'" unfolding h1 by (simp add: nth_append)
      moreover from a have "a < length ?h2" unfolding h1 by simp
      ultimately show ?thesis using a ok by blast
    next
      case 2
      let ?a = "length h + length ex"
      from Cons.prems(2) have "?n < ?a" by simp
      moreover have "?a < length ?h2" unfolding h1 by simp
      moreover from Cons.prems(2) have "?h2 ! ?a = ODict kvs"
        unfolding h1 by (simp add: nth_append)
      ultimately show ?thesis using 2 row cells by blast
    qed
  qed
  from Cons.prems(5) have p5: "\<forall>f \<in> set rest. passed h0 f" by simp
  from Cons.IH[OF p1 p2 p3 p4 p5 rest] show ?case .
qed

lemma getitem_key_held:
  assumes "h_getitem_key data key h = Inr v"
  shows "held_in h v"
proof -
  from assms obtain a kvs where "data = VRef a" "a < length h" "h ! a = ODict kvs"
    and "map_of kvs key = Some v"
    by (cases data)
       (auto simp: h_getitem_key_def split: option.splits pobj.splits if_splits)
  then show ?thesis using map_of_held[of kvs key v] held_in_nth[of a h v] by simp
qed

lemma process_rows_passed:
  assumes c: "closed_store h"
    and run: "h_process_earthquake_data data h = (Inr df, h')"
  shows "hrows df = []
       \<or> (\<exists>rs. length h < length h' \<and> h' ! length h = OList rs
              \<and> hrows df = map (h_items h') rs \<and> rows_ok h h' rs)"
proof (cases "h_truthy h data")
  case False
  with run show ?thesis
    by (auto simp: h_process_earthquake_data_def h_DataFrame_columns_def alloc_def)
next
  case True
  show ?thesis
  proof (cases "h_in ''features'' data h")
    case (Inl e)
    with run True show ?thesis by (simp add: h_process_earthquake_data_def)
  next
    case present: (Inr present)
    show ?thesis
    proof (cases present)
      case False
      with run True present show ?thesis
        by (auto simp: h_process_earthquake_data_def h_DataFrame_columns_def alloc_def)
    next
      case pres: True
      show ?thesis
      proof (cases "h_getitem_key data ''features'' h")
        case (Inl e)
        with run True present pres show ?thesis by (simp add: h_process_earthquake_data_def)
      next
        case features: (Inr features)
        show ?thesis
        proof (cases "h_len features h")
          case (Inl e)
          with run True present pres features show ?thesis
            by (simp add: h_process_earthquake_data_def)
        next
          case len: (Inr k)
          show ?thesis
          proof (cases "k = 0")
            case k0: True
            with run True present pres features len show ?thesis
              by (auto simp: h_process_earthquake_data_def h_DataFrame_columns_def alloc_def)
          next
            case k1: False
            let ?h1 = "h @ [OList []]"
            let ?n = "length h"
            show ?thesis
            proof (cases "h_iter features ?h1")
              case (Inl e)
              with run True present pres features len k1 show ?thesis
                by (auto simp: h_process_earthquake_data_def alloc_def)
            next
              case items: (Inr items)
              obtain r2 h2 where loop: "h_process_loop items (VRef ?n) ?h1 = (r2, h2)"
                by (cases "h_process_loop items (VRef ?n) ?h1")
              from run True present pres features len k1 items loop
              obtain u where r2: "r2 = Inr u" and h': "h' = h2"
                and df: "df = h_DataFrame_records (VRef ?n) h2"
                by (cases r2) (auto simp: h_process_earthquake_data_def alloc_def)
              have t1: "take ?n ?h1 = h" by simp
              from getitem_key_held[OF features] have "usable h ?h1 features"
                by (simp add: passed_usable passed_held)
              from usable_iter[OF this c t1 items] have its: "\<forall>f \<in> set items. passed h f" .
              have "rows_ok h ?h1 []" by (simp add: rows_ok_def)
              from process_loop_rows[OF c t1 _ _ this its loop[unfolded r2]]
              obtain rs where l2: "?n < length h2" and ob: "h2 ! ?n = OList rs"
                and ok: "rows_ok h h2 rs"
                by auto
              from l2 ob have "h_elements h2 (VRef ?n) = rs" by (simp add: h_elements_def)
              with df have "hrows df = map (h_items h2) rs"
                by (simp add: h_DataFrame_records_def)
              with l2 ob ok h' show ?thesis by blast
            qed
          qed
        qed
      qed
    qed
  qed
qed

lemma rows_ok_cells:
  assumes "rows_ok h0 h rs" and "r \<in> set rs" and "x \<in> set (map snd (h_items h r))"
  shows "passed h0 x"
proof -
  from assms(1,2) obtain a kvs where "r = VRef a" "a < length h" "h ! a = ODict kvs"
    and ok: "\<forall>c \<in> set (map snd kvs). passed h0 c"
    unfolding rows_ok_def by blast
  then have "h_items h r = kvs" by (simp add: h_items_def)
  with assms(3) ok show ?thesis by auto
qed

lemma rows_ok_fresh:
  assumes "rows_ok h0 h rs" and "r \<in> set rs"
  shows "\<exists>a. r = VRef a \<and> length h0 < a \<and> a < length h"
  using assms unfolding rows_ok_def by blast


text \<open>
  Claim C10, as stated, fails in its last part. For a feature whose geometry is a line
  (\<^verbatim>\<open>coordinates\<close> a list of positions), \<^verbatim>\<open>coordinates[0]\<close> is itself a list: the record
  stores the reference, and the row's longitude, latitude and depth_km cells point at
  objects 5, 6 and 7 of the payload.
\<close>

theorem normalize_shares_nested_values:
  "h_process_earthquake_data (VRef 0)
     [ODict [(''features'', VRef 1)],
      OList [VRef 2],
      ODict [(''geometry'', VRef 3)],
      ODict [(''coordinates'', VRef 4)],
      OList [VRef 5, VRef 6, VRef 7],
      OList [VInt 1, VInt 2],
      OList [VInt 3, VInt 4],
      OList [VInt 5, VInt 6]]
   = (Inr \<lparr>hcolumns = [''place'', ''magnitude'', ''time'', ''longitude'', ''latitude'',
                         ''depth_km'', ''tsunami_flag'', ''felt_reports''],
            hrows = [[(''place'', VNone), (''magnitude'', VNone), (''time'', VTime NaT),
                      (''longitude'', VRef 5), (''latitude'', VRef 6), (''depth_km'', VRef 7),
                      (''tsunami_flag'', VNone), (''felt_reports'', VNone)]]\<rparr>,
      [ODict [(''features'', VRef 1)],
       OList [VRef 2],
       ODict [(''geometry'', VRef 3)],
       ODict [(''coordinates'', VRef 4)],
       OList [VRef 5, VRef 6, VRef 7],
       OList [VInt 1, VInt 2],
       OList [VInt 3, VInt 4],
       OList [VInt 5, VInt 6],
       OList [VRef 12],
       ODict [],
       ODict [],
       OList [VNone, VNone, VNone],
       ODict [(''place'', VNone), (''magnitude'', VNone), (''time'', VTime NaT),
              (''longitude'', VRef 5), (''latitude'', VRef 6), (''depth_km'', VRef 7),
              (''tsunami_flag'', VNone), (''felt_reports'', VNone)]])"
  by (simp add: h_process_earthquake_data_def h_truthy_def h_in_def h_getitem_key_def
                h_len_def h_iter_def alloc_def h_feature_record_def h_then_def h_get_fresh_def
                h_read_def h_get_def h_getitem_def h_new_def h_append_def
                h_DataFrame_records_def h_items_def h_elements_def)

text \<open>
  Claim C10, amended. The normalizer never writes to an object that existed before the
  call: whether it returns or raises, the store afterwards still begins with the store
  before, unchanged, so the payload, its \<^verbatim>\<open>features\<close> sequence and every \<^verbatim>\<open>properties\<close>
  and \<^verbatim>\<open>geometry\<close> mapping are as they were. When the store has no dangling reference
  and a frame is returned, its rows are the records the call allocated itself, and a
  cell that is a reference is one the payload holds: a field whose value is a scalar is
  copied, a field whose value is a list or a mapping is shared with the payload.
\<close>

theorem normalize_leaves_payload_unchanged:
  assumes "h_process_earthquake_data data h = (res, h')"
  shows "length h \<le> length h' \<and> take (length h) h' = h
       \<and> (closed_store h \<longrightarrow>
            (\<forall>df. res = Inr df \<longrightarrow>
               (hrows df = []
                \<or> (\<exists>rs. h' ! length h = OList rs \<and> hrows df = map (h_items h') rs
                       \<and> (\<forall>r \<in> set rs. \<exists>a. r = VRef a \<and> length h < a \<and> a < length h')))
             \<and> (\<forall>row \<in> set (hrows df). \<forall>x \<in> set (map snd row). is_ref x \<longrightarrow> held_in h x)))"
proof (intro conjI impI allI)
  from process_never_writes_old_objects[OF assms]
  show "length h \<le> length h'" and "take (length h) h' = h" .
next
  fix df assume c: "closed_store h" and res: "res = Inr df"
  from process_rows_passed[OF c assms[unfolded res]]
  show "hrows df = []
        \<or> (\<exists>rs. h' ! length h = OList rs \<and> hrows df = map (h_items h') rs
               \<and> (\<forall>r \<in> set rs. \<exists>a. r = VRef a \<and> length h < a \<and> a < length h'))"
    using rows_ok_fresh[of h h'] by blast
next
  fix df assume c: "closed_store h" and res: "res = Inr df"
  show "\<forall>row \<in> set (hrows df). \<forall>x \<in> set (map snd row). is_ref x \<longrightarrow> held_in h x"
  proof (intro ballI impI)
    fix row x
    assume row: "row \<in> set (hrows df)" and x: "x \<in> set (map snd row)" and r: "is_ref x"
    from process_rows_passed[OF c assms[unfolded res]] row
    obtain rs where rows: "hrows df = map (h_items h') rs" and ok: "rows_ok h h' rs"
      by auto
    from row rows obtain r' where "r' \<in> set rs" and "row = h_items h' r'" by auto
    with rows_ok_cells[OF ok] x have "passed h x" by blast
    with r show "held_in h x" by (simp add: passed_def)
  qed
qed

theorem normalize_leaves_payload_unchanged_witness:
  "closed_store [ODict [(''features'', VRef 1)], OList [VRef 2],
           ODict [(''properties'', VRef 3)],
           ODict [(''place'', VRef 4), (''mag'', VFloat 4.5)],
           OList [VStr ''Test'']]
   \<and> take 5 (snd (h_process_earthquake_data (VRef 0)
          [ODict [(''features'', VRef 1)], OList [VRef 2],
           ODict [(''properties'', VRef 3)],
           ODict [(''place'', VRef 4), (''mag'', VFloat 4.5)],
           OList [VStr ''Test'']]))
     = [ODict [(''features'', VRef 1)], OList [VRef 2],
        ODict [(''properties'', VRef 3)],
        ODict [(''place'', VRef 4), (''mag'', VFloat 4.5)],
        OList [VStr ''Test'']]
   \<and> held_in [ODict [(''features'', VRef 1)], OList [VRef 2],
               ODict [(''properties'', VRef 3)],
               ODict [(''place'', VRef 4), (''mag'', VFloat 4.5)],
               OList [VStr ''Test'']] (VRef 4)"
proof -
  let ?h = "[ODict [(''features'', VRef 1)], OList [VRef 2],
             ODict [(''properties'', VRef 3)],
             ODict [(''place'', VRef 4), (''mag'', VFloat 4.5)],
             OList [VStr ''Test'']]"
  let ?row = "[(''place'', VRef 4), (''magnitude'', VFloat 4.5), (''time'', VTime NaT),
               (''longitude'', VNone), (''latitude'', VNone), (''depth_km'', VNone),
               (''tsunami_flag'', VNone), (''felt_reports'', VNone)]"
  let ?df = "\<lparr>hcolumns = [''place'', ''magnitude'', ''time'', ''longitude'', ''latitude'',
                           ''depth_km'', ''tsunami_flag'', ''felt_reports''],
              hrows = [?row]\<rparr>"
  let ?h' = "?h @ [OList [VRef 9], ODict [], ODict [], OList [VNone, VNone, VNone], ODict ?row]"
  have run: "h_process_earthquake_data (VRef 0) ?h = (Inr ?df, ?h')"
    by (simp add: h_process_earthquake_data_def h_truthy_def h_in_def h_getitem_key_def
                  h_len_def h_iter_def alloc_def h_feature_record_def h_then_def h_get_fresh_def
                  h_read_def h_get_def h_getitem_def h_new_def h_append_def
                  h_DataFrame_records_def h_items_def h_elements_def)
  have cl: "closed_store ?h" by (simp add: closed_store_def)
  from normalize_leaves_payload_unchanged[OF run] cl
  have t: "take (length ?h) ?h' = ?h"
    and cells: "\<forall>row \<in> set (hrows ?df). \<forall>x \<in> set (map snd row). is_ref x \<longrightarrow> held_in ?h x"
    by blast+
  from cells have "held_in ?h (VRef 4)" by simp
  with t cl run show ?thesis by simp
qed

section \<open>The store-level normalizer computes what the value-level one computes\<close>

inductive_cases repr_NoneE: "repr h VNone j"
inductive_cases repr_BoolE: "repr h (VBool b) j"
inductive_cases repr_IntE: "repr h (VInt n) j"
inductive_cases repr_FloatE: "repr h (VFloat x) j"
inductive_cases repr_StrE: "repr h (VStr s) j"
inductive_cases repr_TimeE: "repr h (VTime t) j"
inductive_cases repr_RefE: "repr h (VRef a) j"

lemma repr_prefix:
  assumes "repr h v j" and "take (length h) h' = h"
  shows "repr h' v j"
  using assms(1)
proof (induction rule: repr.induct)
  case (repr_List a vs js)
  from assms(2) have "length (take (length h) h') = length h" by simp
  then have len: "length h \<le> length h'" by simp
  from assms(2) repr_List(1) have "h' ! a = h ! a" by (metis nth_take)
  moreover from repr_List(3) have "list_all2 (repr h') vs js"
    by (rule list_all2_mono) simp
  ultimately show ?case using repr_List(1,2) len by (auto intro: repr.repr_List)
next
  case (repr_Dict a kvs kjs)
  from assms(2) have "length (take (length h) h') = length h" by simp
  then have len: "length h \<le> length h'" by simp
  from assms(2) repr_Dict(1) have "h' ! a = h ! a" by (metis nth_take)
  moreover from repr_Dict(3)
  have "list_all2 (\<lambda>kv kj. fst kv = fst kj \<and> repr h' (snd kv) (snd kj)) kvs kjs"
    by (rule list_all2_mono) simp
  ultimately show ?case using repr_Dict(1,2) len by (auto intro: repr.repr_Dict)
qed (auto intro: repr.intros)

lemma repr_type_name: "repr h v j \<Longrightarrow> h_type_name h v = type_name j"
  by (induction rule: repr.induct) simp_all

lemma repr_look_None:
  assumes "repr h v j" and "look h v = None"
  shows "(v, j) \<in> {(VNone, JNull)} \<union> {(VBool b, JBool b) | b. True}
           \<union> {(VInt n, JInt n) | n. True} \<union> {(VFloat x, JFloat x) | x. True}
           \<union> {(VStr s, JStr s) | s. True}"
  using assms by (induction rule: repr.induct) auto

lemma repr_str_eq:
  assumes "repr h v j"
  shows "v = VStr key \<longleftrightarrow> j = JStr key"
  using assms by (cases rule: repr.cases) auto

lemma repr_list_member:
  assumes "list_all2 (repr h) vs js"
  shows "VStr key \<in> set vs \<longleftrightarrow> JStr key \<in> set js"
  using assms by (induction rule: list_all2_induct) (auto dest: repr_str_eq[of _ _ _ key])

lemma repr_dict_keys:
  assumes "list_all2 (\<lambda>kv kj. fst kv = fst kj \<and> repr h (snd kv) (snd kj)) kvs kjs"
  shows "map fst kvs = map fst kjs"
  using assms by (induction rule: list_all2_induct) auto

lemma repr_dict_lookup:
  assumes "list_all2 (\<lambda>kv kj. fst kv = fst kj \<and> repr h (snd kv) (snd kj)) kvs kjs"
  shows "rel_option (repr h) (map_of kvs key) (map_of kjs key)"
  using assms by (induction rule: list_all2_induct) auto

lemma repr_truthy:
  assumes "repr h v j"
  shows "h_truthy h v = truthy j"
  using assms by (cases rule: repr.cases) (auto simp: h_truthy_def)

lemma repr_in:
  assumes "repr h v j"
  shows "h_in key v h = py_in key j"
  using assms
  by (cases rule: repr.cases)
     (auto simp: h_in_def repr_list_member repr_dict_keys[symmetric] simp del: set_map)

lemma repr_getitem_key:
  assumes "repr h v j"
  shows "rel_sum (=) (repr h) (h_getitem_key v key h) (py_getitem_key j key)"
  using assms
proof (cases rule: repr.cases)
  case (repr_Dict a kvs kjs)
  from repr_dict_lookup[OF repr_Dict(5), of key] repr_Dict(1-4) show ?thesis
    by (cases "map_of kvs key"; cases "map_of kjs key") (auto simp: h_getitem_key_def)
qed (auto simp: h_getitem_key_def)

lemma repr_len:
  assumes "repr h v j"
  shows "h_len v h = py_len j"
  using assms
  by (cases rule: repr.cases)
     (auto simp: h_len_def repr_dict_keys dest: list_all2_lengthD)

lemma repr_iter:
  assumes "repr h v j"
  shows "rel_sum (=) (list_all2 (repr h)) (h_iter v h) (py_iter j)"
  using assms
proof (cases rule: repr.cases)
  case (repr_Str s)
  then show ?thesis
    by (auto simp: h_iter_def list_all2_map1 list_all2_map2 intro: repr.intros list_all2_refl)
next
  case (repr_Dict a kvs kjs)
  from repr_dict_keys[OF repr_Dict(5)] repr_Dict(1-4) show ?thesis
    by (auto simp: h_iter_def list_all2_map1 list_all2_map2 intro: repr.intros list_all2_refl)
qed (auto simp: h_iter_def)

lemma repr_get:
  assumes "repr h v j"
  shows "rel_sum (=) (repr h) (h_get v key h) (py_get j key JNull)"
  using assms
proof (cases rule: repr.cases)
  case (repr_Dict a kvs kjs)
  from repr_dict_lookup[OF repr_Dict(5), of key] repr_Dict(1-4) show ?thesis
    by (cases "map_of kvs key"; cases "map_of kjs key")
       (auto simp: h_get_def dict_get_def intro: repr.intros)
qed (auto simp: h_get_def no_get_def)

lemma repr_getitem:
  assumes "repr h v j"
  shows "rel_sum (=) (repr h) (h_getitem v i h) (py_getitem j i)"
  using assms
proof (cases rule: repr.cases)
  case (repr_List a vs js)
  then show ?thesis
    by (auto simp: h_getitem_def dest: list_all2_lengthD list_all2_nthD)
qed (auto simp: h_getitem_def intro: repr.intros)

lemma repr_to_datetime:
  assumes "repr h v j"
  shows "h_to_datetime v = to_datetime j"
  using assms by (cases rule: repr.cases) auto

lemma sim_then:
  assumes "sim P m h x"
    and "\<And>v y ex. P (h @ ex) v y \<Longrightarrow> sim Q (f v) (h @ ex) (g y)"
  shows "sim Q (h_then m f) h (and_then x g)"
proof -
  obtain r1 h1 where m: "m h = (r1, h1)" by (cases "m h")
  show ?thesis
  proof (cases r1)
    case (Inl e)
    with assms(1) m show ?thesis by (simp add: sim_def h_then_def)
  next
    case (Inr v)
    with assms(1) m obtain ex y where h1: "h1 = h @ ex" and x: "x = Inr y" and p: "P h1 v y"
      by (auto simp: sim_def)
    from assms(2)[OF p[unfolded h1]] have s: "sim Q (f v) (h @ ex) (g y)" .
    obtain r2 h2 where f: "f v (h @ ex) = (r2, h2)" by (cases "f v (h @ ex)")
    from s f m Inr h1 x show ?thesis
      by (cases r2) (auto simp: sim_def h_then_def)
  qed
qed

lemma sim_read:
  assumes "rel_sum (=) (P h) (r h) x"
  shows "sim P (h_read r) h x"
  using assms by (cases "r h"; cases x) (auto simp: sim_def h_read_def)

lemma repr_look:
  assumes "repr h0 v j" and "take (length h0) h = h0"
  shows "look h v = look h0 v"
  using assms(1)
proof (cases rule: repr.cases)
  case (repr_List a vs js)
  with look_take[OF assms(2) refl, of a] show ?thesis by simp
next
  case (repr_Dict a kvs kjs)
  with look_take[OF assms(2) refl, of a] show ?thesis by simp
qed simp_all

lemma look_type_name: "look h v = look h0 v \<Longrightarrow> h_type_name h v = h_type_name h0 v"
  by (cases v) simp_all

lemma srepr_append: "srepr h0 h v j \<Longrightarrow> srepr h0 (h @ ex) v j"
  unfolding srepr_def by (auto simp: nth_append)

lemma srepr_get:
  assumes "srepr h0 h v j" and "take (length h0) h = h0"
  shows "rel_sum (=) (repr h0) (h_get v key h) (py_get j key JNull)"
  using assms(1) unfolding srepr_def
proof (elim disjE exE conjE)
  assume r: "repr h0 v j"
  from repr_look[OF r assms(2)] have l: "look h v = look h0 v" .
  have tn: "h_type_name h v = h_type_name h0 v" by (rule look_type_name[OF l])
  have "h_get v key h = h_get v key h0"
    by (simp only: h_get_def no_get_def l tn)
  with repr_get[OF r, of key] show ?thesis by simp
qed (auto simp: h_get_def no_get_def dict_get_def intro: repr.intros)

lemma srepr_getitem:
  assumes "srepr h0 h v j" and "take (length h0) h = h0" and "i < 3"
  shows "rel_sum (=) (repr h0) (h_getitem v i h) (py_getitem j i)"
  using assms(1) unfolding srepr_def
proof (elim disjE exE conjE)
  assume r: "repr h0 v j"
  from repr_look[OF r assms(2)] have l: "look h v = look h0 v" .
  have tn: "h_type_name h v = h_type_name h0 v" by (rule look_type_name[OF l])
  have "h_getitem v i h = h_getitem v i h0"
    by (simp only: h_getitem_def l tn)
  with repr_getitem[OF r, of i] show ?thesis by simp
next
  fix a assume "v = VRef a" "a < length h" "h ! a = OList [VNone, VNone, VNone]"
    "j = JArr [JNull, JNull, JNull]"
  with assms(3) show ?thesis
    by (auto simp: h_getitem_def nth_Cons' intro: repr.intros)
qed (auto simp: h_getitem_def)

lemma srepr_get_fresh:
  assumes s: "srepr h0 h v j" and t: "take (length h0) h = h0"
    and d: "(dflt = ODict [] \<and> dj = JObj [])
          \<or> (dflt = OList [VNone, VNone, VNone] \<and> dj = JArr [JNull, JNull, JNull])"
  shows "sim (srepr h0) (h_get_fresh v key dflt) h (py_get j key dj)"
  using s[unfolded srepr_def]
proof (elim disjE exE conjE)
  assume r: "repr h0 v j"
  from repr_look[OF r t] have l: "look h v = look h0 v" .
  from r show ?thesis
  proof (cases rule: repr.cases)
    case (repr_Dict a kvs kjs)
    from repr_Dict(1-4) l have lk: "look h v = Some (ODict kvs)" by simp
    show ?thesis
    proof (cases "map_of kvs key")
      case None
      with repr_dict_lookup[OF repr_Dict(5), of key] have "map_of kjs key = None"
        by (cases "map_of kjs key") auto
      with None lk repr_Dict(2) d show ?thesis
        by (auto simp: sim_def h_get_fresh_def alloc_def dict_get_def srepr_def)
    next
      case (Some x)
      with repr_dict_lookup[OF repr_Dict(5), of key] obtain y
        where "map_of kjs key = Some y" and "repr h0 x y"
        by (cases "map_of kjs key") auto
      with Some lk repr_Dict(2) show ?thesis
        by (auto simp: sim_def h_get_fresh_def alloc_def dict_get_def srepr_def)
    qed
  next
    case (repr_List a vs js)
    with l show ?thesis
      by (auto simp: sim_def h_get_fresh_def no_get_def)
  qed (auto simp: sim_def h_get_fresh_def no_get_def)
next
  fix a assume "v = VRef a" "a < length h" "h ! a = ODict []" "j = JObj []"
  with d show ?thesis
    by (auto simp: sim_def h_get_fresh_def alloc_def dict_get_def srepr_def)
next
  fix a assume "v = VRef a" "a < length h" "h ! a = OList [VNone, VNone, VNone]"
    "j = JArr [JNull, JNull, JNull]"
  then show ?thesis
    by (auto simp: sim_def h_get_fresh_def no_get_def)
qed

text \<open>The loop body on the store computes the record of the value-level body.\<close>

lemma feature_agree:
  assumes r: "repr h0 feature j" and t: "take (length h0) h = h0"
  shows "sim (\<lambda>h' row rw. \<exists>ex kvs. h' = h @ ex @ [ODict kvs] \<and> row = VRef (length h + length ex)
                              \<and> row_repr h0 kvs rw)
             (h_feature_record feature) h (feature_record j)"
  unfolding h_feature_record_def feature_record_def
  apply (rule sim_then)
   apply (rule srepr_get_fresh[OF _ t])
    apply (simp add: srepr_def r)
   apply simp
  apply (rule sim_then)
   apply (rule srepr_get_fresh[where ?h0.0 = h0])
     apply (simp add: srepr_def r)
    apply (rule take_append_old[OF t refl])
   apply simp
  apply (rule sim_then)
   apply (rule srepr_get_fresh[where ?h0.0 = h0])
     apply assumption
    apply ((rule t | rule take_append_old[OF _ refl])+)[1]
   apply simp
  apply (rule sim_then)
   apply (rule sim_read)
   apply (rule srepr_get[where ?h0.0 = h0])
    apply ((assumption | rule srepr_append)+)[1]
   apply ((rule t | rule take_append_old[OF _ refl])+)[1]
  apply (rule sim_then)
   apply (rule sim_read)
   apply (rule srepr_get[where ?h0.0 = h0])
    apply ((assumption | rule srepr_append)+)[1]
   apply ((rule t | rule take_append_old[OF _ refl])+)[1]
  apply (rule sim_then)
   apply (rule sim_read)
   apply (rule srepr_get[where ?h0.0 = h0])
    apply ((assumption | rule srepr_append)+)[1]
   apply ((rule t | rule take_append_old[OF _ refl])+)[1]
  apply (rule sim_then)
   apply (rule sim_read)
   apply (rule srepr_getitem[where ?h0.0 = h0])
     apply ((assumption | rule srepr_append)+)[1]
    apply ((rule t | rule take_append_old[OF _ refl])+)[1]
   apply simp
  apply (rule sim_then)
   apply (rule sim_read)
   apply (rule srepr_getitem[where ?h0.0 = h0])
     apply ((assumption | rule srepr_append)+)[1]
    apply ((rule t | rule take_append_old[OF _ refl])+)[1]
   apply simp
  apply (rule sim_then)
   apply (rule sim_read)
   apply (rule srepr_getitem[where ?h0.0 = h0])
     apply ((assumption | rule srepr_append)+)[1]
    apply ((rule t | rule take_append_old[OF _ refl])+)[1]
   apply simp
  apply (rule sim_then)
   apply (rule sim_read)
   apply (rule srepr_get[where ?h0.0 = h0])
    apply ((assumption | rule srepr_append)+)[1]
   apply ((rule t | rule take_append_old[OF _ refl])+)[1]
  apply (rule sim_then)
   apply (rule sim_read)
   apply (rule srepr_get[where ?h0.0 = h0])
    apply ((assumption | rule srepr_append)+)[1]
   apply ((rule t | rule take_append_old[OF _ refl])+)[1]
  apply (simp add: sim_def h_new_def alloc_def row_repr_def repr_to_datetime)
  done

lemma rows_repr_step:
  assumes old: "rows_repr h0 h rs acc"
    and n: "length h0 < length h"
    and row: "row_repr h0 kvs y"
  shows "rows_repr h0 ((h @ ex @ [ODict kvs])[length h0 := ob])
           (rs @ [VRef (length h + length ex)]) (acc @ [y])"
  unfolding rows_repr_def
proof (rule list_all2_appendI)
  let ?h2 = "(h @ ex @ [ODict kvs])[length h0 := ob]"
  from old show "list_all2 (\<lambda>r rw. \<exists>a kvs. r = VRef a \<and> length h0 < a \<and> a < length ?h2
                                  \<and> ?h2 ! a = ODict kvs \<and> row_repr h0 kvs rw) rs acc"
    unfolding rows_repr_def
  proof (rule list_all2_mono)
    fix r rw
    assume "\<exists>a kvs. r = VRef a \<and> length h0 < a \<and> a < length h \<and> h ! a = ODict kvs
                   \<and> row_repr h0 kvs rw"
    then obtain a kvs' where a: "r = VRef a" "length h0 < a" "a < length h"
      and ob: "h ! a = ODict kvs'" and rr: "row_repr h0 kvs' rw"
      by blast
    from a ob have "?h2 ! a = ODict kvs'" by (simp add: nth_append)
    moreover from a have "a < length ?h2" by simp
    ultimately show "\<exists>a kvs. r = VRef a \<and> length h0 < a \<and> a < length ?h2
                           \<and> ?h2 ! a = ODict kvs \<and> row_repr h0 kvs rw"
      using a rr by blast
  qed
next
  let ?h2 = "(h @ ex @ [ODict kvs])[length h0 := ob]"
  let ?a = "length h + length ex"
  from n have "length h0 < ?a" by simp
  moreover have "?a < length ?h2" by simp
  moreover from n have "?h2 ! ?a = ODict kvs" by (simp add: nth_append)
  ultimately show "list_all2 (\<lambda>r rw. \<exists>a kvs. r = VRef a \<and> length h0 < a \<and> a < length ?h2
                                  \<and> ?h2 ! a = ODict kvs \<and> row_repr h0 kvs rw)
                     [VRef ?a] [y]"
    using row by auto
qed

lemma loop_agree:
  assumes "list_all2 (repr h0) items js"
  shows "take (length h0) h = h0 \<Longrightarrow> length h0 < length h \<Longrightarrow> h ! length h0 = OList rs \<Longrightarrow>
         rows_repr h0 h rs acc \<Longrightarrow>
         (case h_process_loop items (VRef (length h0)) h of
            (Inl e, h') \<Rightarrow> process_loop js acc = Inl e
          | (Inr u, h') \<Rightarrow>
              (\<exists>rs' acc'. process_loop js acc = Inr acc' \<and> length h0 < length h'
                         \<and> h' ! length h0 = OList rs' \<and> rows_repr h0 h' rs' acc'))"
  using assms
proof (induction arbitrary: h rs acc rule: list_all2_induct)
  case Nil
  then show ?case by simp
next
  case (Cons f items j js)
  let ?n = "length h0"
  obtain r1 h1 where m: "h_feature_record f h = (r1, h1)" by (cases "h_feature_record f h")
  note ag = feature_agree[OF Cons.hyps(1) Cons.prems(1)]
  show ?case
  proof (cases r1)
    case (Inl e)
    with ag m have "feature_record j = Inl e" by (simp add: sim_def)
    with m Inl show ?thesis by simp
  next
    case (Inr row)
    with ag m obtain y ex kvs where fr: "feature_record j = Inr y"
      and h1: "h1 = h @ ex @ [ODict kvs]" and row: "row = VRef (length h + length ex)"
      and rr: "row_repr h0 kvs y"
      by (auto simp: sim_def)
    from Cons.prems(2,3) have lk: "look h1 (VRef ?n) = Some (OList rs)"
      unfolding h1 by (simp add: nth_append)
    let ?h2 = "h1[?n := OList (rs @ [row])]"
    from lk have app: "h_append (VRef ?n) row h1 = ?h2" by (simp add: h_append_def)
    have t1: "take ?n h1 = h0" unfolding h1 by (rule take_append_old[OF Cons.prems(1) refl])
    have p1: "take ?n ?h2 = h0" using t1 by simp
    have p2: "?n < length ?h2" using Cons.prems(2) unfolding h1 by simp
    have p3: "?h2 ! ?n = OList (rs @ [row])" using Cons.prems(2) unfolding h1 by simp
    have p4: "rows_repr h0 ?h2 (rs @ [row]) (acc @ [y])"
      unfolding h1 row by (rule rows_repr_step[OF Cons.prems(4) Cons.prems(2) rr])
    from fr have pl: "process_loop (j # js) acc = process_loop js (acc @ [y])" by simp
    from m Inr app
    have hl: "h_process_loop (f # items) (VRef ?n) h = h_process_loop items (VRef ?n) ?h2"
      by simp
    from Cons.IH[OF p1 p2 p3 p4] show ?thesis unfolding pl hl .
  qed
qed

lemma row_repr_keys: "row_repr h kvs rw \<Longrightarrow> map fst kvs = map fst rw"
  unfolding row_repr_def by (induction rule: list_all2_induct) auto

lemma rows_repr_items:
  assumes "rows_repr h0 h rs acc"
  shows "list_all2 (row_repr h0) (map (h_items h) rs) acc"
  using assms unfolding rows_repr_def
  by (induction rule: list_all2_induct) (auto simp: h_items_def)

lemma list_all2_row_keys:
  assumes "list_all2 (row_repr h0) hrs acc"
  shows "map (map fst) hrs = map (map fst) acc"
  using assms by (induction rule: list_all2_induct) (auto dest: row_repr_keys)

lemma frame_from_rows:
  assumes "length h0 < length h" and "h ! length h0 = OList rs" and "rows_repr h0 h rs acc"
  shows "frame_repr h0 (h_DataFrame_records (VRef (length h0)) h) (DataFrame_records acc)"
proof -
  from assms(1,2) have el: "h_elements h (VRef (length h0)) = rs" by (simp add: h_elements_def)
  from rows_repr_items[OF assms(3)] have rows: "list_all2 (row_repr h0) (map (h_items h) rs) acc" .
  from list_all2_row_keys[OF rows]
  have "map (map fst \<circ> h_items h) rs = map (map fst) acc" by simp
  with rows el show ?thesis
    by (simp add: frame_repr_def h_DataFrame_records_def DataFrame_records_def)
qed

lemma frame_columns:
  "frame_repr h \<lparr>hcolumns = schema, hrows = []\<rparr> (DataFrame_columns schema)"
  by (simp add: frame_repr_def DataFrame_columns_def)

lemma repr_iter_later:
  assumes r: "repr h v j" and t: "take (length h) h' = h"
  shows "rel_sum (=) (list_all2 (repr h)) (h_iter v h') (py_iter j)"
proof -
  from repr_look[OF r t] have l: "look h' v = look h v" .
  have tn: "h_type_name h' v = h_type_name h v" by (rule look_type_name[OF l])
  have "h_iter v h' = h_iter v h" by (simp only: h_iter_def l tn)
  with repr_iter[OF r] show ?thesis by simp
qed

text \<open>
  On a store that represents a JSON payload, the store-level normalizer raises the same
  exception as the value-level one, or returns a frame with the same columns whose
  cells represent the cells of the value-level frame.
\<close>

lemma process_agree:
  assumes r: "repr h data j"
  shows "rel_sum (=) (frame_repr h) (fst (h_process_earthquake_data data h))
                                   (process_earthquake_data j)"
proof (cases "truthy j")
  case False
  with repr_truthy[OF r] show ?thesis
    by (simp add: h_process_earthquake_data_def process_earthquake_data_def
                  h_DataFrame_columns_def alloc_def frame_columns)
next
  case True
  with repr_truthy[OF r] have ht: "h_truthy h data" by simp
  note hin = repr_in[OF r, of "''features''"]
  show ?thesis
  proof (cases "py_in ''features'' j")
    case (Inl e)
    with hin ht True show ?thesis
      by (simp add: h_process_earthquake_data_def process_earthquake_data_def)
  next
    case present: (Inr present)
    show ?thesis
    proof (cases present)
      case False
      with hin ht True present show ?thesis
        by (simp add: h_process_earthquake_data_def process_earthquake_data_def
                      h_DataFrame_columns_def alloc_def frame_columns)
    next
      case pres: True
      note gk = repr_getitem_key[OF r, of "''features''"]
      show ?thesis
      proof (cases "py_getitem_key j ''features''")
        case (Inl e)
        with gk have "h_getitem_key data ''features'' h = Inl e"
          by (cases "h_getitem_key data ''features'' h") auto
        with Inl hin ht True present pres show ?thesis
          by (simp add: h_process_earthquake_data_def process_earthquake_data_def)
      next
        case fj: (Inr fj)
        with gk obtain features where hf: "h_getitem_key data ''features'' h = Inr features"
          and rf: "repr h features fj"
          by (cases "h_getitem_key data ''features'' h") auto
        note hl = repr_len[OF rf]
        show ?thesis
        proof (cases "py_len fj")
          case (Inl e)
          with hl fj hf hin ht True present pres show ?thesis
            by (simp add: h_process_earthquake_data_def process_earthquake_data_def)
        next
          case len: (Inr k)
          show ?thesis
          proof (cases "k = 0")
            case k0: True
            with len hl fj hf hin ht True present pres show ?thesis
              by (simp add: h_process_earthquake_data_def process_earthquake_data_def
                            h_DataFrame_columns_def alloc_def frame_columns)
          next
            case k1: False
            let ?h1 = "h @ [OList []]"
            let ?n = "length h"
            have t1: "take ?n ?h1 = h" by simp
            note it = repr_iter_later[OF rf t1]
            have pe: "process_earthquake_data j =
                        and_then (py_iter fj) (\<lambda>items.
                          and_then (process_loop items []) (\<lambda>records.
                            Inr (DataFrame_records records)))"
              using True present pres fj len k1 by (simp add: process_earthquake_data_def)
            have he: "h_process_earthquake_data data h =
                        (case h_iter features ?h1 of
                           Inl e \<Rightarrow> (Inl e, ?h1)
                         | Inr items \<Rightarrow>
                             (case h_process_loop items (VRef ?n) ?h1 of
                                (Inl e, h2) \<Rightarrow> (Inl e, h2)
                              | (Inr u, h2) \<Rightarrow> (Inr (h_DataFrame_records (VRef ?n) h2), h2)))"
              using ht hin present pres hf hl len k1
              by (simp add: h_process_earthquake_data_def alloc_def)
            show ?thesis
            proof (cases "py_iter fj")
              case (Inl e)
              with it have "h_iter features ?h1 = Inl e"
                by (cases "h_iter features ?h1") auto
              with Inl show ?thesis unfolding pe he by simp
            next
              case js: (Inr js)
              with it obtain items where hi: "h_iter features ?h1 = Inr items"
                and ri: "list_all2 (repr h) items js"
                by (cases "h_iter features ?h1") auto
              have "rows_repr h ?h1 [] []" by (simp add: rows_repr_def)
              from loop_agree[OF ri t1 _ _ this]
              have la: "case h_process_loop items (VRef ?n) ?h1 of
                          (Inl e, h') \<Rightarrow> process_loop js [] = Inl e
                        | (Inr u, h') \<Rightarrow>
                            (\<exists>rs' acc'. process_loop js [] = Inr acc' \<and> ?n < length h'
                                       \<and> h' ! ?n = OList rs' \<and> rows_repr h h' rs' acc')"
                by simp
              obtain r2 h2 where loop: "h_process_loop items (VRef ?n) ?h1 = (r2, h2)"
                by (cases "h_process_loop items (VRef ?n) ?h1")
              show ?thesis
              proof (cases r2)
                case (Inl e)
                with la loop have "process_loop js [] = Inl e" by simp
                with Inl loop hi js show ?thesis unfolding pe he by simp
              next
                case (Inr u)
                with la loop obtain rs' acc' where pl: "process_loop js [] = Inr acc'"
                  and l2: "?n < length h2" and ob: "h2 ! ?n = OList rs'"
                  and rr: "rows_repr h h2 rs' acc'"
                  by auto
                from frame_from_rows[OF l2 ob rr] Inr loop hi js pl show ?thesis
                  unfolding pe he by simp
              qed
            qed
          qed
        qed
      qed
    qed
  qed
qed

lemma process_agree_example:
  "repr [ODict [(''features'', VRef 1)], OList [VRef 2],
         ODict [(''properties'', VRef 3)], ODict [(''place'', VStr ''Test'')]]
        (VRef 0)
        (JObj [(''features'', JArr [JObj [(''properties'', JObj [(''place'', JStr ''Test'')])]])])"
  by (rule repr.intros | simp)+

end
